theory Spec2Isabelle
  imports Main "HOL-Library.Word" "HOL-Library.Monad_Syntax"
begin

section \<open>The wide-character compatibility layer of platform\_compat.c\<close>

text \<open>
  The functions of \<^verbatim>\<open>Code/platform_compat.c\<close> are embedded as functions on an explicit
  \<open>world\<close>: the part of the process state they read and write (\<open>errno\<close>, the
  \<open>LC_CTYPE\<close> locale, the static variables of the file, the objects in memory) together
  with the answers of the operating system. A function returns \<open>None\<close> where the C
  program has undefined behaviour (an access outside an object, a signed overflow) and
  \<open>Some (r, w)\<close> where it returns \<open>r\<close> and leaves the world \<open>w\<close>.

  The C library and the kernel are not part of the repository. They are modelled after
  their ISO C and POSIX descriptions, in the subsections \<open>Character conversion\<close> and
  \<open>Memory and the operating system\<close>.
\<close>

subsection \<open>Data\<close>

type_synonym char_t = "8 word"
type_synonym wchar_t = "32 word"
type_synonym addr = nat

text \<open>
  A \<^verbatim>\<open>const char *\<close> or \<^verbatim>\<open>const wchar_t *\<close> argument, which the layer only reads, is a
  \<open>list option\<close>: \<open>None\<close> is the null pointer and \<open>Some xs\<close> points to an array
  holding \<open>xs\<close> followed by a terminator. The string it denotes ends at the first NUL.
\<close>

definition c_str :: "'a::zero list \<Rightarrow> 'a list" where
  "c_str xs = takeWhile (\<lambda>c. c \<noteq> 0) xs"

datatype ctype_locale = C_locale | UTF8_locale

subsection \<open>Character conversion\<close>

text \<open>
  One character, in the UTF-8 locale: the scalar values \<open>0 .. 0x10FFFF\<close> without the
  surrogates, in the shortest form; every other wide value and every other byte sequence
  is an encoding error.
\<close>

definition utf8_encode :: "wchar_t \<Rightarrow> char_t list option" where
  "utf8_encode c = (let n = unat c in
     if n < 0x80 then Some [of_nat n]
     else if n < 0x800 then
       Some [of_nat (0xC0 + n div 0x40), of_nat (0x80 + n mod 0x40)]
     else if n < 0x10000 then
       (if 0xD800 \<le> n \<and> n < 0xE000 then None
        else Some [of_nat (0xE0 + n div 0x1000), of_nat (0x80 + n div 0x40 mod 0x40),
                   of_nat (0x80 + n mod 0x40)])
     else if n < 0x110000 then
       Some [of_nat (0xF0 + n div 0x40000), of_nat (0x80 + n div 0x1000 mod 0x40),
             of_nat (0x80 + n div 0x40 mod 0x40), of_nat (0x80 + n mod 0x40)]
     else None)"

definition is_cont :: "char_t \<Rightarrow> bool" where
  "is_cont b = (0x80 \<le> unat b \<and> unat b < 0xC0)"

definition cont_bits :: "char_t \<Rightarrow> nat" where
  "cont_bits b = unat b - 0x80"

text \<open>
  Decoding takes the first byte of a character and the bytes after it, and gives the
  character with the number of following bytes that belong to it.
\<close>

definition utf8_decode :: "char_t \<Rightarrow> char_t list \<Rightarrow> (wchar_t \<times> nat) option" where
  "utf8_decode b0 bs = (let n0 = unat b0 in
     if n0 < 0x80 then Some (of_nat n0, 0)
     else if n0 < 0xC2 then None
     else if n0 < 0xE0 then
       (case bs of
          b1 # r \<Rightarrow>
            if is_cont b1 then Some (of_nat ((n0 - 0xC0) * 0x40 + cont_bits b1), 1)
            else None
        | _ \<Rightarrow> None)
     else if n0 < 0xF0 then
       (case bs of
          b1 # b2 # r \<Rightarrow>
            if is_cont b1 \<and> is_cont b2 then
              (let v = (n0 - 0xE0) * 0x1000 + cont_bits b1 * 0x40 + cont_bits b2 in
               if v < 0x800 \<or> (0xD800 \<le> v \<and> v < 0xE000) then None
               else Some (of_nat v, 2))
            else None
        | _ \<Rightarrow> None)
     else if n0 < 0xF5 then
       (case bs of
          b1 # b2 # b3 # r \<Rightarrow>
            if is_cont b1 \<and> is_cont b2 \<and> is_cont b3 then
              (let v = (n0 - 0xF0) * 0x40000 + cont_bits b1 * 0x1000
                       + cont_bits b2 * 0x40 + cont_bits b3 in
               if v < 0x10000 \<or> 0x110000 \<le> v then None
               else Some (of_nat v, 3))
            else None
        | _ \<Rightarrow> None)
     else None)"

text \<open>
  \<^verbatim>\<open>wctomb\<close> and \<^verbatim>\<open>mbtowc\<close> in the two locales of the model. The \<^verbatim>\<open>"C"\<close> locale, which
  a process has until it calls \<^verbatim>\<open>setlocale\<close>, converts the 7-bit characters only.
\<close>

fun wctomb :: "ctype_locale \<Rightarrow> wchar_t \<Rightarrow> char_t list option" where
  "wctomb C_locale c = (if unat c < 0x80 then Some [of_nat (unat c)] else None)"
| "wctomb UTF8_locale c = utf8_encode c"

fun mbtowc :: "ctype_locale \<Rightarrow> char_t \<Rightarrow> char_t list \<Rightarrow> (wchar_t \<times> nat) option" where
  "mbtowc C_locale b bs = (if unat b < 0x80 then Some (of_nat (unat b), 0) else None)"
| "mbtowc UTF8_locale b bs = utf8_decode b bs"

text \<open>
  \<^verbatim>\<open>wcstombs(NULL, src, 0)\<close>: the number of bytes the whole string takes, without the
  terminator; \<open>None\<close> is the return value \<^verbatim>\<open>(size_t)-1\<close>.
\<close>

fun wcstombs_len :: "ctype_locale \<Rightarrow> wchar_t list \<Rightarrow> nat option" where
  "wcstombs_len L [] = Some 0"
| "wcstombs_len L (c # cs) =
     (if c = 0 then Some 0
      else case wctomb L c of
             None \<Rightarrow> None
           | Some bs \<Rightarrow> map_option (\<lambda>k. length bs + k) (wcstombs_len L cs))"

text \<open>
  \<^verbatim>\<open>wcstombs(dst, src, n)\<close> with a destination: the bytes it stores from \<open>dst[0]\<close> on and
  its return value. It stops when \<open>n\<close> bytes are stored or the next character does not
  fit any more, stores the terminator when there is room for it, and keeps what it has
  stored when it meets a character that has no encoding.
\<close>

fun wcstombs_out :: "ctype_locale \<Rightarrow> wchar_t list \<Rightarrow> nat \<Rightarrow> char_t list \<times> nat option" where
  "wcstombs_out L [] n = (if n = 0 then [] else [0], Some 0)"
| "wcstombs_out L (c # cs) n =
     (if n = 0 then ([], Some 0)
      else if c = 0 then ([0], Some 0)
      else case wctomb L c of
             None \<Rightarrow> ([], None)
           | Some bs \<Rightarrow>
               if n < length bs then ([], Some 0)
               else (case wcstombs_out L cs (n - length bs) of
                       (out, r) \<Rightarrow> (bs @ out, map_option (\<lambda>k. length bs + k) r)))"

text \<open>\<^verbatim>\<open>mbstowcs(NULL, src, 0)\<close> and \<^verbatim>\<open>mbstowcs(dst, src, n)\<close>, in the same way.\<close>

fun mbstowcs_len :: "ctype_locale \<Rightarrow> char_t list \<Rightarrow> nat option" where
  "mbstowcs_len L [] = Some 0"
| "mbstowcs_len L (b # bs) =
     (if b = 0 then Some 0
      else case mbtowc L b bs of
             None \<Rightarrow> None
           | Some (c, k) \<Rightarrow> map_option Suc (mbstowcs_len L (drop k bs)))"

fun mbstowcs_out :: "ctype_locale \<Rightarrow> char_t list \<Rightarrow> nat \<Rightarrow> wchar_t list \<times> nat option" where
  "mbstowcs_out L [] n = (if n = 0 then [] else [0], Some 0)"
| "mbstowcs_out L (b # bs) n =
     (if n = 0 then ([], Some 0)
      else if b = 0 then ([0], Some 0)
      else case mbtowc L b bs of
             None \<Rightarrow> ([], None)
           | Some (c, k) \<Rightarrow>
               (case mbstowcs_out L (drop k bs) (n - 1) of
                  (out, r) \<Rightarrow> (c # out, map_option Suc r)))"

text \<open>
  The whole conversion of a string, used to state what the operations compute:
  the bytes of a wide string and the wide characters of a byte string, up to the
  terminator, or \<open>None\<close> when a character has no conversion.
\<close>

fun mbs_of_wcs :: "ctype_locale \<Rightarrow> wchar_t list \<Rightarrow> char_t list option" where
  "mbs_of_wcs L [] = Some []"
| "mbs_of_wcs L (c # cs) =
     (if c = 0 then Some []
      else case wctomb L c of
             None \<Rightarrow> None
           | Some bs \<Rightarrow> map_option (\<lambda>r. bs @ r) (mbs_of_wcs L cs))"

fun wcs_of_mbs :: "ctype_locale \<Rightarrow> char_t list \<Rightarrow> wchar_t list option" where
  "wcs_of_mbs L [] = Some []"
| "wcs_of_mbs L (b # bs) =
     (if b = 0 then Some []
      else case mbtowc L b bs of
             None \<Rightarrow> None
           | Some (c, k) \<Rightarrow> map_option (\<lambda>r. c # r) (wcs_of_mbs L (drop k bs)))"

text \<open>The wide characters that UTF-8 represents: the Unicode scalar values.\<close>

definition representable :: "wchar_t \<Rightarrow> bool" where
  "representable c = (unat c < 0xD800 \<or> (0xE000 \<le> unat c \<and> unat c < 0x110000))"

subsection \<open>Memory and the operating system\<close>

text \<open>
  An object in memory is an array of \<^verbatim>\<open>char\<close>, an array of \<^verbatim>\<open>wchar_t\<close> or a variable of
  type \<^verbatim>\<open>char *\<close>. The pointers of the layer point to the start of an object; the value
  of a \<^verbatim>\<open>char *\<close> variable is null, the static array \<^verbatim>\<open>program_path\<close> or an object.
\<close>

datatype pointer = Null | Program_path | Obj addr

datatype block = Bytes "char_t list" | Wides "wchar_t list" | Cell pointer

text \<open>What the process asks of the C library's allocator and of the kernel, in order.\<close>

datatype event =
    Malloc nat "addr option"
  | Free addr
  | Setlocale
  | Chdir "char_t list"
  | Getcwd
  | Readlink
  | Realpath "char_t list"
  | Fopen "char_t list" "char_t list"
  | Remove "char_t list"
  | Rename "char_t list" "char_t list"

text \<open>
  The environment answers each request from the requests made so far: whether an
  allocation succeeds, whether the locale \<^verbatim>\<open>C.UTF-8\<close> can be selected and the error number
  that the selection leaves behind, if any, and for a system call either an error number
  or its result.
\<close>

record os =
  os_malloc :: "event list \<Rightarrow> nat \<Rightarrow> bool"
  os_setlocale :: "event list \<Rightarrow> bool \<times> nat option"
  os_chdir :: "event list \<Rightarrow> char_t list \<Rightarrow> nat option"
  os_getcwd :: "event list \<Rightarrow> nat + char_t list"
  os_readlink :: "event list \<Rightarrow> nat + char_t list"
  os_realpath :: "event list \<Rightarrow> char_t list \<Rightarrow> nat + char_t list"
  os_fopen :: "event list \<Rightarrow> char_t list \<Rightarrow> char_t list \<Rightarrow> nat + nat"
  os_remove :: "event list \<Rightarrow> char_t list \<Rightarrow> nat option"
  os_rename :: "event list \<Rightarrow> char_t list \<Rightarrow> char_t list \<Rightarrow> nat option"

record world =
  errno :: nat
  lc_ctype :: ctype_locale
  locale_set :: bool
  program_path :: "char_t list"
  mem :: "(addr \<times> block) list"
  trace :: "event list"
  env :: os

definition EINVAL :: nat where "EINVAL = 22"
definition ENOMEM :: nat where "ENOMEM = 12"
definition ERANGE :: nat where "ERANGE = 34"
definition EILSEQ :: nat where "EILSEQ = 84"

definition PATH_MAX :: nat where "PATH_MAX = 4096"
definition PTRDIFF_MAX :: nat where "PTRDIFF_MAX = 2 ^ 63 - 1"

text \<open>
  \<open>size_t\<close> values are natural numbers: they are lengths of strings held in memory,
  for which \<open>len + 1\<close> and \<open>(len + 1) * sizeof(wchar_t)\<close> do not wrap around. The \<^verbatim>\<open>int\<close>
  arguments of \<^verbatim>\<open>MultiByteToWideChar_compat\<close> are 32-bit words.
\<close>

definition fresh :: "(addr \<times> block) list \<Rightarrow> addr" where
  "fresh m = Suc (fold max (map fst m) 0)"

definition alloc :: "nat \<Rightarrow> block \<Rightarrow> world \<Rightarrow> addr option \<times> world" where
  "alloc n b s =
     (if n \<le> PTRDIFF_MAX \<and> os_malloc (env s) (trace s) n then
        (let a = fresh (mem s)
         in (Some a, s\<lparr>mem := (a, b) # mem s, trace := trace s @ [Malloc n (Some a)]\<rparr>))
      else (None, s\<lparr>errno := ENOMEM, trace := trace s @ [Malloc n None]\<rparr>))"

text \<open>\<^verbatim>\<open>malloc(n)\<close> for \<open>n\<close> chars, and \<^verbatim>\<open>malloc(k * sizeof(wchar_t))\<close> for \<open>k\<close> wide characters.\<close>

definition malloc :: "nat \<Rightarrow> world \<Rightarrow> addr option \<times> world" where
  "malloc n s = alloc n (Bytes (replicate n 0)) s"

definition malloc_wchar :: "nat \<Rightarrow> world \<Rightarrow> addr option \<times> world" where
  "malloc_wchar k s = alloc (k * 4) (Wides (replicate k 0)) s"

definition free :: "addr \<Rightarrow> world \<Rightarrow> world" where
  "free a s = s\<lparr>mem := filter (\<lambda>kv. fst kv \<noteq> a) (mem s), trace := trace s @ [Free a]\<rparr>"

definition store :: "addr \<Rightarrow> block \<Rightarrow> world \<Rightarrow> world" where
  "store a b s = s\<lparr>mem := map (\<lambda>kv. if fst kv = a then (a, b) else kv) (mem s)\<rparr>"

text \<open>Access to an object; \<open>None\<close> is an access outside of it (undefined behaviour).\<close>

definition write_bytes :: "addr \<Rightarrow> char_t list \<Rightarrow> world \<Rightarrow> world option" where
  "write_bytes a xs s =
     (case map_of (mem s) a of
        Some (Bytes old) \<Rightarrow>
          if length xs \<le> length old then Some (store a (Bytes (xs @ drop (length xs) old)) s)
          else None
      | _ \<Rightarrow> None)"

definition write_wides :: "addr \<Rightarrow> wchar_t list \<Rightarrow> world \<Rightarrow> world option" where
  "write_wides a xs s =
     (case map_of (mem s) a of
        Some (Wides old) \<Rightarrow>
          if length xs \<le> length old then Some (store a (Wides (xs @ drop (length xs) old)) s)
          else None
      | _ \<Rightarrow> None)"

definition poke_byte :: "addr \<Rightarrow> nat \<Rightarrow> char_t \<Rightarrow> world \<Rightarrow> world option" where
  "poke_byte a i v s =
     (case map_of (mem s) a of
        Some (Bytes old) \<Rightarrow> if i < length old then Some (store a (Bytes (old[i := v])) s) else None
      | _ \<Rightarrow> None)"

definition poke_wide :: "addr \<Rightarrow> nat \<Rightarrow> wchar_t \<Rightarrow> world \<Rightarrow> world option" where
  "poke_wide a i v s =
     (case map_of (mem s) a of
        Some (Wides old) \<Rightarrow> if i < length old then Some (store a (Wides (old[i := v])) s) else None
      | _ \<Rightarrow> None)"

definition write_cell :: "addr \<Rightarrow> pointer \<Rightarrow> world \<Rightarrow> world option" where
  "write_cell a v s =
     (case map_of (mem s) a of
        Some (Cell old) \<Rightarrow> Some (store a (Cell v) s)
      | _ \<Rightarrow> None)"

text \<open>The string stored in an array of chars: it must hold a terminator.\<close>

definition str_at :: "world \<Rightarrow> addr \<Rightarrow> char_t list option" where
  "str_at s a =
     (case map_of (mem s) a of
        Some (Bytes bs) \<Rightarrow> if 0 \<in> set bs then Some (c_str bs) else None
      | _ \<Rightarrow> None)"

text \<open>
  The conversions of strings, on the world: with a null destination they only set
  \<open>errno\<close> on an encoding error, with a destination they store what they convert.
\<close>

definition wcstombs_null :: "wchar_t list \<Rightarrow> world \<Rightarrow> nat option \<times> world" where
  "wcstombs_null src s =
     (case wcstombs_len (lc_ctype s) src of
        None \<Rightarrow> (None, s\<lparr>errno := EILSEQ\<rparr>)
      | Some l \<Rightarrow> (Some l, s))"

definition wcstombs :: "addr \<Rightarrow> wchar_t list \<Rightarrow> nat \<Rightarrow> world \<Rightarrow> (nat option \<times> world) option" where
  "wcstombs dst src n s =
     (case wcstombs_out (lc_ctype s) src n of
        (out, r) \<Rightarrow>
          map_option (\<lambda>s'. (r, if r = None then s'\<lparr>errno := EILSEQ\<rparr> else s'))
            (write_bytes dst out s))"

definition mbstowcs_null :: "char_t list \<Rightarrow> world \<Rightarrow> nat option \<times> world" where
  "mbstowcs_null src s =
     (case mbstowcs_len (lc_ctype s) src of
        None \<Rightarrow> (None, s\<lparr>errno := EILSEQ\<rparr>)
      | Some l \<Rightarrow> (Some l, s))"

definition mbstowcs :: "addr \<Rightarrow> char_t list \<Rightarrow> nat \<Rightarrow> world \<Rightarrow> (nat option \<times> world) option" where
  "mbstowcs dst src n s =
     (case mbstowcs_out (lc_ctype s) src n of
        (out, r) \<Rightarrow>
          map_option (\<lambda>s'. (r, if r = None then s'\<lparr>errno := EILSEQ\<rparr> else s'))
            (write_wides dst out s))"

text \<open>
  \<^verbatim>\<open>strncpy(dst, src, n)\<close>: the string, cut after \<open>n\<close> chars or filled with NUL up to \<open>n\<close>.
\<close>

definition strncpy :: "addr \<Rightarrow> char_t list \<Rightarrow> nat \<Rightarrow> world \<Rightarrow> world option" where
  "strncpy dst src n s =
     write_bytes dst (take n (c_str src) @ replicate (n - length (c_str src)) 0) s"

text \<open>
  \<^verbatim>\<open>setlocale(LC_CTYPE, "C.UTF-8")\<close>: the locale stays as it is when it fails. The C
  standard does not say what \<^verbatim>\<open>setlocale\<close> does to \<open>errno\<close>, and a call that succeeds can
  leave an error number there (glibc leaves \<^verbatim>\<open>ENOENT\<close> after looking for a locale file that
  does not exist). So the environment answers two things: whether the locale is
  installed, and the error number the call leaves in \<open>errno\<close>, if it leaves one.
\<close>

definition setlocale :: "world \<Rightarrow> world" where
  "setlocale s =
     s\<lparr>errno := (case snd (os_setlocale (env s) (trace s)) of None \<Rightarrow> errno s | Some e \<Rightarrow> e),
       lc_ctype := (if fst (os_setlocale (env s) (trace s)) then UTF8_locale else lc_ctype s),
       trace := trace s @ [Setlocale]\<rparr>"

text \<open>The system calls. \<^verbatim>\<open>getcwd(NULL, 0)\<close> returns the path in a block of its own.\<close>

definition chdir :: "char_t list \<Rightarrow> world \<Rightarrow> int \<times> world" where
  "chdir path s =
     (case os_chdir (env s) (trace s) path of
        None \<Rightarrow> (0, s\<lparr>trace := trace s @ [Chdir path]\<rparr>)
      | Some e \<Rightarrow> (- 1, s\<lparr>errno := e, trace := trace s @ [Chdir path]\<rparr>))"

definition getcwd :: "world \<Rightarrow> addr option \<times> world" where
  "getcwd s =
     (case os_getcwd (env s) (trace s) of
        Inl e \<Rightarrow> (None, s\<lparr>errno := e, trace := trace s @ [Getcwd]\<rparr>)
      | Inr p \<Rightarrow>
          (let a = fresh (mem s)
           in (Some a, s\<lparr>mem := (a, Bytes (c_str p @ [0])) # mem s,
                          trace := trace s @ [Getcwd]\<rparr>)))"

text \<open>
  \<^verbatim>\<open>readlink("/proc/self/exe", program_path, n)\<close> stores at most \<open>n\<close> bytes, without a
  terminator, and returns their number.
\<close>

definition readlink :: "nat \<Rightarrow> world \<Rightarrow> int \<times> world" where
  "readlink n s =
     (case os_readlink (env s) (trace s) of
        Inl e \<Rightarrow> (- 1, s\<lparr>errno := e, trace := trace s @ [Readlink]\<rparr>)
      | Inr p \<Rightarrow>
          (let q = take n p
           in (int (length q),
               s\<lparr>program_path := q @ drop (length q) (program_path s),
                 trace := trace s @ [Readlink]\<rparr>)))"

definition realpath :: "char_t list \<Rightarrow> world \<Rightarrow> char_t list option \<times> world" where
  "realpath path s =
     (case os_realpath (env s) (trace s) path of
        Inl e \<Rightarrow> (None, s\<lparr>errno := e, trace := trace s @ [Realpath path]\<rparr>)
      | Inr r \<Rightarrow> (Some (c_str r), s\<lparr>trace := trace s @ [Realpath path]\<rparr>))"

definition fopen :: "char_t list \<Rightarrow> char_t list \<Rightarrow> world \<Rightarrow> nat option \<times> world" where
  "fopen filename mode s =
     (case os_fopen (env s) (trace s) filename mode of
        Inl e \<Rightarrow> (None, s\<lparr>errno := e, trace := trace s @ [Fopen filename mode]\<rparr>)
      | Inr f \<Rightarrow> (Some f, s\<lparr>trace := trace s @ [Fopen filename mode]\<rparr>))"

definition remove_file :: "char_t list \<Rightarrow> world \<Rightarrow> int \<times> world" where
  "remove_file path s =
     (case os_remove (env s) (trace s) path of
        None \<Rightarrow> (0, s\<lparr>trace := trace s @ [Remove path]\<rparr>)
      | Some e \<Rightarrow> (- 1, s\<lparr>errno := e, trace := trace s @ [Remove path]\<rparr>))"

definition rename_file :: "char_t list \<Rightarrow> char_t list \<Rightarrow> world \<Rightarrow> int \<times> world" where
  "rename_file old new s =
     (case os_rename (env s) (trace s) old new of
        None \<Rightarrow> (0, s\<lparr>trace := trace s @ [Rename old new]\<rparr>)
      | Some e \<Rightarrow> (- 1, s\<lparr>errno := e, trace := trace s @ [Rename old new]\<rparr>))"

subsection \<open>The functions of platform\_compat.c\<close>

text \<open>
  Each definition follows its C function statement by statement; the numbered worlds
  \<open>s1\<close>, \<open>s2\<close>, ... are the states between the statements. \<^verbatim>\<open>_wfopen\<close>, \<^verbatim>\<open>_wremove\<close>
  and \<^verbatim>\<open>_wrename\<close> are written without the leading underscore.
\<close>

definition wchdir_compat :: "wchar_t list option \<Rightarrow> world \<Rightarrow> (int \<times> world) option" where
  "wchdir_compat path s =
     (if path = None then Some (- 1, s\<lparr>errno := EINVAL\<rparr>)
      else
        (case wcstombs_null (the path) s of
           (None, s1) \<Rightarrow> Some (- 1, s1)
         | (Some len, s1) \<Rightarrow>
             (case malloc (len + 1) s1 of
                (None, s2) \<Rightarrow> Some (- 1, s2\<lparr>errno := ENOMEM\<rparr>)
              | (Some mbpath, s2) \<Rightarrow> do {
                  (_, s3) \<leftarrow> wcstombs mbpath (the path) (len + 1) s2;
                  str \<leftarrow> str_at s3 mbpath;
                  let (result, s4) = chdir str s3;
                  Some (result, free mbpath s4)
                })))"

definition wgetcwd_compat :: "addr option \<Rightarrow> nat \<Rightarrow> world \<Rightarrow> (addr option \<times> world) option" where
  "wgetcwd_compat buffer sz s =
     (case getcwd s of
        (None, s1) \<Rightarrow> Some (None, s1)
      | (Some mbpath, s1) \<Rightarrow> do {
          str \<leftarrow> str_at s1 mbpath;
          (case mbstowcs_null str s1 of
             (None, s2) \<Rightarrow> Some (None, (free mbpath s2)\<lparr>errno := EILSEQ\<rparr>)
           | (Some len, s2) \<Rightarrow>
               if buffer = None \<or> sz = 0 then
                 (case malloc_wchar (len + 1) s2 of
                    (None, s3) \<Rightarrow> Some (None, (free mbpath s3)\<lparr>errno := ENOMEM\<rparr>)
                  | (Some result_buffer, s3) \<Rightarrow> do {
                      (_, s4) \<leftarrow> mbstowcs result_buffer str (len + 1) s3;
                      Some (Some result_buffer, free mbpath s4)
                    })
               else if len \<ge> sz then Some (None, (free mbpath s2)\<lparr>errno := ERANGE\<rparr>)
               else do {
                 (_, s4) \<leftarrow> mbstowcs (the buffer) str (len + 1) s2;
                 Some (buffer, free mbpath s4)
               })
        })"

definition get_pgmptr_compat :: "addr option \<Rightarrow> world \<Rightarrow> (int \<times> world) option" where
  "get_pgmptr_compat ptr s =
     (case readlink (PATH_MAX - 1) s of
        (len, s1) \<Rightarrow>
          if len = - 1 then Some (- 1, s1)
          else do {
            let s2 = s1\<lparr>program_path := (program_path s1)[nat len := 0]\<rparr>;
            p \<leftarrow> ptr;
            s3 \<leftarrow> write_cell p Program_path s2;
            Some (0, s3)
          })"

definition wfullpath_compat ::
  "addr option \<Rightarrow> wchar_t list option \<Rightarrow> nat \<Rightarrow> world \<Rightarrow> (addr option \<times> world) option" where
  "wfullpath_compat dst src sz s =
     (if dst = None \<or> src = None \<or> sz = 0 then Some (None, s\<lparr>errno := EINVAL\<rparr>)
      else
        (case wcstombs_null (the src) s of
           (None, s1) \<Rightarrow> Some (None, s1)
         | (Some len, s1) \<Rightarrow>
             (case malloc (len + 1) s1 of
                (None, s2) \<Rightarrow> Some (None, s2\<lparr>errno := ENOMEM\<rparr>)
              | (Some mbsrc, s2) \<Rightarrow> do {
                  (_, s3) \<leftarrow> wcstombs mbsrc (the src) (len + 1) s2;
                  str \<leftarrow> str_at s3 mbsrc;
                  (case realpath str s3 of
                     (None, s4) \<Rightarrow> Some (None, free mbsrc s4)
                   | (Some resolved, s4) \<Rightarrow>
                       (let s5 = free mbsrc s4
                        in case mbstowcs_null resolved s5 of
                             (len', s6) \<Rightarrow>
                               if len' = None \<or> the len' \<ge> sz
                               then Some (None, s6\<lparr>errno := ERANGE\<rparr>)
                               else do {
                                 (_, s7) \<leftarrow> mbstowcs (the dst) resolved sz s6;
                                 Some (dst, s7)
                               }))
                })))"

text \<open>
  The block \<^verbatim>\<open>static int locale_set = 0; if (!locale_set) { setlocale(...); locale_set = 1; }\<close>
  of \<^verbatim>\<open>MultiByteToWideChar_compat\<close>. The result of \<^verbatim>\<open>setlocale\<close> is not looked at.
\<close>

definition lazy_setlocale :: "world \<Rightarrow> world" where
  "lazy_setlocale s = (if \<not> locale_set s then (setlocale s)\<lparr>locale_set := True\<rparr> else s)"

definition MultiByteToWideChar_compat ::
  "32 word \<Rightarrow> 64 word \<Rightarrow> char_t list option \<Rightarrow> 32 word \<Rightarrow> addr option \<Rightarrow> 32 word
     \<Rightarrow> world \<Rightarrow> (int \<times> world) option" where
  "MultiByteToWideChar_compat cp flags src srclen dst dstlen s =
     (if src = None \<or> dst = None \<or> sint dstlen \<le> 0 then Some (0, s)
      else
        (let s1 = lazy_setlocale s;
             srclen1 = (if srclen = - 1 then of_nat (length (c_str (the src))) else srclen)
         in if sint srclen1 = 2 ^ 31 - 1 then None
            else
              (case malloc (nat ((sint srclen1 + 1) mod 2 ^ 64)) s1 of
                 (None, s2) \<Rightarrow> Some (0, s2)
               | (Some temp_src, s2) \<Rightarrow> do {
                   s3 \<leftarrow> strncpy temp_src (the src) (nat (sint srclen1 mod 2 ^ 64)) s2;
                   s4 \<leftarrow> (if sint srclen1 < 0 then None
                          else poke_byte temp_src (nat (sint srclen1)) 0 s3);
                   str \<leftarrow> str_at s4 temp_src;
                   (result, s5) \<leftarrow> mbstowcs (the dst) str (nat (sint dstlen - 1)) s4;
                   let s6 = free temp_src s5;
                   (case result of
                      None \<Rightarrow> Some (0, s6)
                    | Some r \<Rightarrow>
                        if r < nat (sint dstlen - 1) then do {
                          s7 \<leftarrow> poke_wide (the dst) r 0 s6;
                          Some (int r, s7)
                        }
                        else do {
                          s7 \<leftarrow> poke_wide (the dst) (nat (sint dstlen - 1)) 0 s6;
                          Some (sint dstlen - 1, s7)
                        })
                 })))"

definition wfopen ::
  "wchar_t list option \<Rightarrow> wchar_t list option \<Rightarrow> world \<Rightarrow> (nat option \<times> world) option" where
  "wfopen filename mode s =
     (if filename = None \<or> mode = None then Some (None, s\<lparr>errno := EINVAL\<rparr>)
      else
        (case wcstombs_null (the filename) s of
           (None, s1) \<Rightarrow> Some (None, s1)
         | (Some fname_len, s1) \<Rightarrow>
             (case malloc (fname_len + 1) s1 of
                (None, s2) \<Rightarrow> Some (None, s2\<lparr>errno := ENOMEM\<rparr>)
              | (Some mbfilename, s2) \<Rightarrow> do {
                  (_, s3) \<leftarrow> wcstombs mbfilename (the filename) (fname_len + 1) s2;
                  (case wcstombs_null (the mode) s3 of
                     (None, s4) \<Rightarrow> Some (None, free mbfilename s4)
                   | (Some mode_len, s4) \<Rightarrow>
                       (case malloc (mode_len + 1) s4 of
                          (None, s5) \<Rightarrow> Some (None, (free mbfilename s5)\<lparr>errno := ENOMEM\<rparr>)
                        | (Some mbmode, s5) \<Rightarrow> do {
                            (_, s6) \<leftarrow> wcstombs mbmode (the mode) (mode_len + 1) s5;
                            fn \<leftarrow> str_at s6 mbfilename;
                            md \<leftarrow> str_at s6 mbmode;
                            let (result, s7) = fopen fn md s6;
                            Some (result, free mbmode (free mbfilename s7))
                          }))
                })))"

definition wremove :: "wchar_t list option \<Rightarrow> world \<Rightarrow> (int \<times> world) option" where
  "wremove filename s =
     (if filename = None then Some (- 1, s\<lparr>errno := EINVAL\<rparr>)
      else
        (case wcstombs_null (the filename) s of
           (None, s1) \<Rightarrow> Some (- 1, s1)
         | (Some len, s1) \<Rightarrow>
             (case malloc (len + 1) s1 of
                (None, s2) \<Rightarrow> Some (- 1, s2\<lparr>errno := ENOMEM\<rparr>)
              | (Some mbfilename, s2) \<Rightarrow> do {
                  (_, s3) \<leftarrow> wcstombs mbfilename (the filename) (len + 1) s2;
                  str \<leftarrow> str_at s3 mbfilename;
                  let (result, s4) = remove_file str s3;
                  Some (result, free mbfilename s4)
                })))"

definition wrename ::
  "wchar_t list option \<Rightarrow> wchar_t list option \<Rightarrow> world \<Rightarrow> (int \<times> world) option" where
  "wrename oldname newname s =
     (if oldname = None \<or> newname = None then Some (- 1, s\<lparr>errno := EINVAL\<rparr>)
      else
        (case wcstombs_null (the oldname) s of
           (None, s1) \<Rightarrow> Some (- 1, s1)
         | (Some old_len, s1) \<Rightarrow>
             (case malloc (old_len + 1) s1 of
                (None, s2) \<Rightarrow> Some (- 1, s2\<lparr>errno := ENOMEM\<rparr>)
              | (Some mboldname, s2) \<Rightarrow> do {
                  (_, s3) \<leftarrow> wcstombs mboldname (the oldname) (old_len + 1) s2;
                  (case wcstombs_null (the newname) s3 of
                     (None, s4) \<Rightarrow> Some (- 1, free mboldname s4)
                   | (Some new_len, s4) \<Rightarrow>
                       (case malloc (new_len + 1) s4 of
                          (None, s5) \<Rightarrow> Some (- 1, (free mboldname s5)\<lparr>errno := ENOMEM\<rparr>)
                        | (Some mbnewname, s5) \<Rightarrow> do {
                            (_, s6) \<leftarrow> wcstombs mbnewname (the newname) (new_len + 1) s5;
                            old \<leftarrow> str_at s6 mboldname;
                            new \<leftarrow> str_at s6 mbnewname;
                            let (result, s7) = rename_file old new s6;
                            Some (result, free mbnewname (free mboldname s7))
                          }))
                })))"

subsection \<open>Sequences of calls\<close>

text \<open>
  A program uses the layer through a sequence of calls. \<open>run\<close> performs them one after
  the other on the world the previous one has left, and stops at undefined behaviour.
\<close>

datatype call =
    Wchdir "wchar_t list option"
  | Wgetcwd "addr option" nat
  | Get_pgmptr "addr option"
  | Wfullpath "addr option" "wchar_t list option" nat
  | MultiByteToWideChar "32 word" "64 word" "char_t list option" "32 word" "addr option" "32 word"
  | Wfopen "wchar_t list option" "wchar_t list option"
  | Wremove "wchar_t list option"
  | Wrename "wchar_t list option" "wchar_t list option"

fun perform :: "call \<Rightarrow> world \<Rightarrow> world option" where
  "perform (Wchdir path) s = map_option snd (wchdir_compat path s)"
| "perform (Wgetcwd buffer sz) s = map_option snd (wgetcwd_compat buffer sz s)"
| "perform (Get_pgmptr ptr) s = map_option snd (get_pgmptr_compat ptr s)"
| "perform (Wfullpath dst src sz) s = map_option snd (wfullpath_compat dst src sz s)"
| "perform (MultiByteToWideChar cp flags src srclen dst dstlen) s =
     map_option snd (MultiByteToWideChar_compat cp flags src srclen dst dstlen s)"
| "perform (Wfopen filename mode) s = map_option snd (wfopen filename mode s)"
| "perform (Wremove filename) s = map_option snd (wremove filename s)"
| "perform (Wrename oldname newname) s = map_option snd (wrename oldname newname s)"

fun run :: "call list \<Rightarrow> world \<Rightarrow> world option" where
  "run [] s = Some s"
| "run (c # cs) s = (case perform c s of None \<Rightarrow> None | Some s' \<Rightarrow> run cs s')"

definition setlocale_calls :: "world \<Rightarrow> nat" where
  "setlocale_calls s = length (filter (\<lambda>e. e = Setlocale) (trace s))"

subsection \<open>What a call leaves behind\<close>

text \<open>
  The addresses of the objects in memory, in order: \<^verbatim>\<open>malloc\<close> adds one that was not there
  and \<^verbatim>\<open>free\<close> takes one away. The state of the locale: the \<open>LC_CTYPE\<close> locale, the flag
  \<open>locale_set\<close> and the number of calls of \<^verbatim>\<open>setlocale\<close> so far.
\<close>

definition keys :: "world \<Rightarrow> addr list" where
  "keys s = map fst (mem s)"

definition locale_state :: "world \<Rightarrow> ctype_locale \<times> bool \<times> nat" where
  "locale_state s = (lc_ctype s, locale_set s, setlocale_calls s)"

text \<open>
  From \<open>s\<close> to \<open>s'\<close> the locale was set up at most once: \<^verbatim>\<open>setlocale\<close> was called once
  if the flag went up and not at all otherwise, and once the flag is up it stays up and
  the locale stays what it is.
\<close>

definition once :: "world \<Rightarrow> world \<Rightarrow> bool" where
  "once s s' \<longleftrightarrow>
     setlocale_calls s' = setlocale_calls s + (if locale_set s' \<and> \<not> locale_set s then 1 else 0)
     \<and> (locale_set s \<longrightarrow> locale_set s' \<and> lc_ctype s' = lc_ctype s)"

subsection \<open>Example worlds\<close>

text \<open>
  An environment in which every request succeeds, and a world with a wide array of
  four characters at address 1 and a \<^verbatim>\<open>char *\<close> variable at address 2. The theorems are
  instantiated on them.
\<close>

definition os_ok :: os where
  "os_ok = \<lparr>os_malloc = (\<lambda>h n. True), os_setlocale = (\<lambda>h. (True, None)),
            os_chdir = (\<lambda>h p. None), os_getcwd = (\<lambda>h. Inr [0x2F, 0x61]),
            os_readlink = (\<lambda>h. Inr [0x2F, 0x78]), os_realpath = (\<lambda>h p. Inr (0x2F # p)),
            os_fopen = (\<lambda>h p m. Inr 3), os_remove = (\<lambda>h p. None),
            os_rename = (\<lambda>h p q. None)\<rparr>"

definition w0 :: world where
  "w0 = \<lparr>errno = 0, lc_ctype = UTF8_locale, locale_set = False,
          program_path = [0, 0, 0, 0, 0, 0, 0, 0],
          mem = [(1, Wides [7, 7, 7, 7]), (2, Cell Null)], trace = [], env = os_ok\<rparr>"

text \<open>The same world where the link \<^verbatim>\<open>/proc/self/exe\<close> cannot be read (\<^verbatim>\<open>ENOENT\<close>).\<close>

definition w_noexe :: world where
  "w_noexe = w0\<lparr>env := os_ok\<lparr>os_readlink := (\<lambda>h. Inl 2)\<rparr>\<rparr>"

text \<open>The same world where every allocation is refused.\<close>

definition w_nomem :: world where
  "w_nomem = w0\<lparr>env := os_ok\<lparr>os_malloc := (\<lambda>h n. False)\<rparr>\<rparr>"

text \<open>The same world where the current directory is \<^verbatim>\<open>d\<close> followed by e acute, in UTF-8.\<close>

definition w_de :: world where
  "w_de = w0\<lparr>env := os_ok\<lparr>os_getcwd := (\<lambda>h. Inr [0x64, 0xC3, 0xA9])\<rparr>\<rparr>"

text \<open>The same world in the \<^verbatim>\<open>C\<close> locale, as a process that never called \<^verbatim>\<open>setlocale\<close> has it.\<close>

definition w_C :: world where
  "w_C = w0\<lparr>lc_ctype := C_locale\<rparr>"

text \<open>
  A process in the \<^verbatim>\<open>C\<close> locale where \<^verbatim>\<open>setlocale\<close> succeeds and leaves \<^verbatim>\<open>ENOENT\<close> in \<open>errno\<close>.
\<close>

definition w_enoent :: world where
  "w_enoent = w0\<lparr>lc_ctype := C_locale, env := os_ok\<lparr>os_setlocale := (\<lambda>h. (True, Some 2))\<rparr>\<rparr>"

section \<open>Properties of the conversions\<close>

lemma split2: "(n::nat) = (n div 0x40) * 0x40 + n mod 0x40"
  by simp

lemma split3: "(n::nat) = (n div 0x1000) * 0x1000 + (n div 0x40 mod 0x40) * 0x40 + n mod 0x40"
proof -
  define a where "a = n div 0x40"
  define a1 where "a1 = a div 0x40"
  define r0 where "r0 = n mod 0x40"
  define r1 where "r1 = a mod 0x40"
  have 1: "n = a * 0x40 + r0" by (simp add: a_def r0_def)
  have 2: "a = a1 * 0x40 + r1" by (simp add: a1_def r1_def)
  have 3: "n div 0x1000 = a1" by (simp add: a_def a1_def div_mult2_eq)
  have "n = a1 * 0x1000 + r1 * 0x40 + r0" using 1 2 by simp
  then show ?thesis unfolding 3 by (simp only: r0_def r1_def a_def)
qed

lemma split4: "(n::nat) = (n div 0x40000) * 0x40000 + (n div 0x1000 mod 0x40) * 0x1000 + (n div 0x40 mod 0x40) * 0x40 + n mod 0x40"
proof -
  define a where "a = n div 0x1000"
  have 1: "n = a * 0x1000 + (n div 0x40 mod 0x40) * 0x40 + n mod 0x40" unfolding a_def by (rule split3)
  have 2: "a = (a div 0x40) * 0x40 + a mod 0x40" by simp
  have 3: "a div 0x40 = n div 0x40000" by (simp add: a_def div_mult2_eq)
  define q where "q = a div 0x40"
  define r where "r = a mod 0x40"
  define t where "t = (n div 0x40 mod 0x40) * 0x40 + n mod 0x40"
  have "n = a * 0x1000 + t" using 1 by (simp add: t_def)
  moreover have "a = q * 0x40 + r" using 2 by (simp add: q_def r_def)
  ultimately have "n = q * 0x40000 + r * 0x1000 + t" by simp
  then show ?thesis unfolding t_def q_def r_def 3 unfolding a_def by simp
qed
lemma unat_byte: "k < 256 \<Longrightarrow> unat (of_nat k :: char_t) = k"
  by (simp add: unat_of_nat)

lemma decode1: "k0 < 0x80 \<Longrightarrow> utf8_decode (of_nat k0) rest = Some (of_nat k0, 0)"
  by (simp add: utf8_decode_def unat_byte)

lemma decode2:
  "0xC2 \<le> k0 \<Longrightarrow> k0 < 0xE0 \<Longrightarrow> 0x80 \<le> k1 \<Longrightarrow> k1 < 0xC0 \<Longrightarrow>
   utf8_decode (of_nat k0) (of_nat k1 # rest) = Some (of_nat ((k0 - 0xC0) * 0x40 + (k1 - 0x80)), 1)"
  by (simp add: utf8_decode_def unat_byte is_cont_def cont_bits_def)

lemma decode3:
  "0xE0 \<le> k0 \<Longrightarrow> k0 < 0xF0 \<Longrightarrow> 0x80 \<le> k1 \<Longrightarrow> k1 < 0xC0 \<Longrightarrow> 0x80 \<le> k2 \<Longrightarrow> k2 < 0xC0 \<Longrightarrow>
   v = (k0 - 0xE0) * 0x1000 + (k1 - 0x80) * 0x40 + (k2 - 0x80) \<Longrightarrow>
   0x800 \<le> v \<Longrightarrow> \<not> (0xD800 \<le> v \<and> v < 0xE000) \<Longrightarrow>
   utf8_decode (of_nat k0) (of_nat k1 # of_nat k2 # rest) = Some (of_nat v, 2)"
  by (simp add: utf8_decode_def unat_byte is_cont_def cont_bits_def Let_def)

lemma decode4:
  "0xF0 \<le> k0 \<Longrightarrow> k0 < 0xF5 \<Longrightarrow> 0x80 \<le> k1 \<Longrightarrow> k1 < 0xC0 \<Longrightarrow> 0x80 \<le> k2 \<Longrightarrow> k2 < 0xC0 \<Longrightarrow>
   0x80 \<le> k3 \<Longrightarrow> k3 < 0xC0 \<Longrightarrow>
   v = (k0 - 0xF0) * 0x40000 + (k1 - 0x80) * 0x1000 + (k2 - 0x80) * 0x40 + (k3 - 0x80) \<Longrightarrow>
   0x10000 \<le> v \<Longrightarrow> v < 0x110000 \<Longrightarrow>
   utf8_decode (of_nat k0) (of_nat k1 # of_nat k2 # of_nat k3 # rest) = Some (of_nat v, 3)"
  by (simp add: utf8_decode_def unat_byte is_cont_def cont_bits_def Let_def)

lemma utf8_roundtrip:
  assumes "utf8_encode c = Some (b # e)"
  shows "utf8_decode b (e @ rest) = Some (c, length e)"
proof -
  define n where "n = unat c"
  have c: "of_nat n = c" by (simp add: n_def)
  note enc = assms[unfolded utf8_encode_def Let_def, folded n_def]
  consider "n < 0x80" | "0x80 \<le> n" "n < 0x800" | "0x800 \<le> n" "n < 0x10000" | "0x10000 \<le> n" "n < 0x110000" | "0x110000 \<le> n"
    by linarith
  then show ?thesis
  proof cases
    case 1
    with enc have "b = of_nat n" "e = []" by auto
    with 1 show ?thesis
      by (simp add: decode1 c)
  next
    case 2
    with enc have be: "b = of_nat (0xC0 + n div 0x40)" "e = [of_nat (0x80 + n mod 0x40)]" by auto
    have "utf8_decode (of_nat (0xC0 + n div 0x40)) (of_nat (0x80 + n mod 0x40) # rest)
          = Some (of_nat ((0xC0 + n div 0x40 - 0xC0) * 0x40 + (0x80 + n mod 0x40 - 0x80)), 1)"
      using 2 by (intro decode2) simp_all
    moreover have "(0xC0 + n div 0x40 - 0xC0) * 0x40 + (0x80 + n mod 0x40 - 0x80) = n" by simp
    ultimately show ?thesis unfolding be by (simp only: c append.simps list.size) simp
  next
    case 3
    with enc have ns: "\<not> (0xD800 \<le> n \<and> n < 0xE000)" by (auto split: if_splits)
    with 3 enc have be: "b = of_nat (0xE0 + n div 0x1000)" 
       "e = [of_nat (0x80 + n div 0x40 mod 0x40), of_nat (0x80 + n mod 0x40)]" by auto
    have v: "n = (0xE0 + n div 0x1000 - 0xE0) * 0x1000 + (0x80 + n div 0x40 mod 0x40 - 0x80) * 0x40 + (0x80 + n mod 0x40 - 0x80)"
      using split3 [of n] by simp
    have "utf8_decode (of_nat (0xE0 + n div 0x1000)) (of_nat (0x80 + n div 0x40 mod 0x40) # of_nat (0x80 + n mod 0x40) # rest)
          = Some (of_nat n, 2)"
      using 3 ns by (intro decode3 v) simp_all
    then show ?thesis unfolding be by (simp only: c append.simps list.size) simp
  next
    case 4
    with enc have be: "b = of_nat (0xF0 + n div 0x40000)" 
       "e = [of_nat (0x80 + n div 0x1000 mod 0x40), of_nat (0x80 + n div 0x40 mod 0x40), of_nat (0x80 + n mod 0x40)]" by auto
    have v: "n = (0xF0 + n div 0x40000 - 0xF0) * 0x40000 + (0x80 + n div 0x1000 mod 0x40 - 0x80) * 0x1000 + (0x80 + n div 0x40 mod 0x40 - 0x80) * 0x40 + (0x80 + n mod 0x40 - 0x80)"
      using split4 [of n] by simp
    have "utf8_decode (of_nat (0xF0 + n div 0x40000)) (of_nat (0x80 + n div 0x1000 mod 0x40) # of_nat (0x80 + n div 0x40 mod 0x40) # of_nat (0x80 + n mod 0x40) # rest)
          = Some (of_nat n, 3)"
      using 4 by (intro decode4 v) simp_all
    then show ?thesis unfolding be by (simp only: c append.simps list.size) simp
  next
    case 5 with enc show ?thesis by simp
  qed
qed

lemma byte_nz: "0 < k \<Longrightarrow> k < 256 \<Longrightarrow> (of_nat k :: char_t) \<noteq> 0"
  using unat_byte [of k] by auto

lemma utf8_encode_nonzero:
  assumes "utf8_encode c = Some bs" "c \<noteq> 0"
  shows "bs \<noteq> [] \<and> 0 \<notin> set bs"
proof -
  define n where "n = unat c"
  from assms(2) have n0: "0 < n" by (simp add: n_def unat_gt_0)
  note enc = assms(1)[unfolded utf8_encode_def Let_def, folded n_def]
  have k: "\<And>k. k < 0x40 \<Longrightarrow> (of_nat (0x80 + k) :: char_t) \<noteq> 0"
    by (rule byte_nz) simp_all
  have m: "n mod 0x40 < 0x40" "n div 0x40 mod 0x40 < 0x40" "n div 0x1000 mod 0x40 < 0x40" by simp_all
  consider "n < 0x80" | "0x80 \<le> n" "n < 0x800" | "0x800 \<le> n" "n < 0x10000" | "0x10000 \<le> n" "n < 0x110000" | "0x110000 \<le> n"
    by linarith
  then show ?thesis
  proof cases
    case 1
    with enc have "bs = [of_nat n]" by auto
    with 1 n0 show ?thesis using byte_nz [of n] by simp
  next
    case 2
    with enc have be: "bs = [of_nat (0xC0 + n div 0x40), of_nat (0x80 + n mod 0x40)]" by auto
    have "(of_nat (0xC0 + n div 0x40) :: char_t) \<noteq> 0" using 2 by (intro byte_nz) simp_all
    then show ?thesis unfolding be using k [OF m(1)] by (simp only: set_simps) auto
  next
    case 3
    with enc have be: "bs = [of_nat (0xE0 + n div 0x1000), of_nat (0x80 + n div 0x40 mod 0x40),
                   of_nat (0x80 + n mod 0x40)]" by (auto split: if_splits)
    have "(of_nat (0xE0 + n div 0x1000) :: char_t) \<noteq> 0" using 3 by (intro byte_nz) simp_all
    then show ?thesis unfolding be using k [OF m(1)] k [OF m(2)] by (simp only: set_simps) auto
  next
    case 4
    with enc have be: "bs = [of_nat (0xF0 + n div 0x40000), of_nat (0x80 + n div 0x1000 mod 0x40),
             of_nat (0x80 + n div 0x40 mod 0x40), of_nat (0x80 + n mod 0x40)]" by auto
    have "(of_nat (0xF0 + n div 0x40000) :: char_t) \<noteq> 0" using 4 by (intro byte_nz) simp_all
    then show ?thesis unfolding be using k [OF m(1)] k [OF m(2)] k [OF m(3)] by (simp only: set_simps) auto
  next
    case 5 with enc show ?thesis by simp
  qed
qed

lemma wctomb_nonzero: "wctomb L c = Some bs \<Longrightarrow> c \<noteq> 0 \<Longrightarrow> bs \<noteq> [] \<and> 0 \<notin> set bs"
proof (cases L)
  case C_locale
  assume a: "wctomb L c = Some bs" "c \<noteq> 0"
  then have "0 < unat c" by (simp add: unat_gt_0)
  with a C_locale show ?thesis using byte_nz [of "unat c"] by (auto split: if_splits)
next
  case UTF8_locale
  assume "wctomb L c = Some bs" "c \<noteq> 0"
  with UTF8_locale show ?thesis using utf8_encode_nonzero by simp
qed

lemma mbtowc_C_small: "n < 0x80 \<Longrightarrow> mbtowc C_locale (of_nat n) rest = Some (of_nat n, 0)"
  by (simp add: unat_byte)

lemma wctomb_roundtrip:
  "wctomb L c = Some (b # e) \<Longrightarrow> mbtowc L b (e @ rest) = Some (c, length e)"
proof (cases L)
  case C_locale
  assume a: "wctomb L c = Some (b # e)"
  define n where "n = unat c"
  have c: "of_nat n = c" by (simp add: n_def)
  from a C_locale have "(if unat c < 0x80 then Some [of_nat (unat c)] else None) = Some (b # e)"
    by (simp only: wctomb.simps)
  note a' = this[folded n_def]
  from a' have n: "n < 0x80" and b: "b = of_nat n" and e: "e = []"
    by (simp_all split: if_splits)
  show ?thesis unfolding C_locale b e using mbtowc_C_small [OF n] by (simp only: c append_Nil list.size)
next
  case UTF8_locale
  assume "wctomb L c = Some (b # e)"
  with UTF8_locale show ?thesis using utf8_roundtrip by simp
qed

lemma wcstombs_len_eq: "wcstombs_len L ws = map_option length (mbs_of_wcs L ws)"
  by (induction ws) (auto split: option.splits simp: option.map_comp comp_def)

lemma mbstowcs_len_eq: "mbstowcs_len L bs = map_option length (wcs_of_mbs L bs)"
  by (induction L bs rule: wcs_of_mbs.induct) (auto split: option.splits simp: option.map_comp comp_def)

lemma wcstombs_out_full:
  "mbs_of_wcs L ws = Some bs \<Longrightarrow> length bs < n \<Longrightarrow> wcstombs_out L ws n = (bs @ [0], Some (length bs))"
  by (induction ws arbitrary: bs n) (auto split: option.splits if_splits)

lemma mbstowcs_out_full:
  "wcs_of_mbs L bs = Some ws \<Longrightarrow> length ws < n \<Longrightarrow> mbstowcs_out L bs n = (ws @ [0], Some (length ws))"
  by (induction L bs arbitrary: ws n rule: wcs_of_mbs.induct) (auto split: option.splits if_splits)

lemma mbs_of_wcs_nonzero: "mbs_of_wcs L ws = Some bs \<Longrightarrow> 0 \<notin> set bs"
  by (induction ws arbitrary: bs) (auto split: option.splits if_splits dest: wctomb_nonzero)



lemma wcs_roundtrip:
  "mbs_of_wcs L ws = Some bs \<Longrightarrow> wcs_of_mbs L (bs @ 0 # rest) = Some (c_str ws) \<and> wcs_of_mbs L bs = Some (c_str ws)"
proof (induction ws arbitrary: bs)
  case Nil
  then show ?case by (simp add: c_str_def)
next
  case (Cons c cs)
  show ?case
  proof (cases "c = 0")
    case True
    with Cons.prems show ?thesis by (simp add: c_str_def)
  next
    case False
    with Cons.prems obtain e r where e: "wctomb L c = Some e" and r: "mbs_of_wcs L cs = Some r" and bs: "bs = e @ r"
      by (auto split: option.splits)
    from wctomb_nonzero [OF e False] obtain b e' where be: "e = b # e'" "b \<noteq> 0"
      by (cases e) auto
    from e be have d: "\<And>rest. mbtowc L b (e' @ rest) = Some (c, length e')"
      using wctomb_roundtrip by simp
    from Cons.IH [OF r] have ih: "wcs_of_mbs L (r @ 0 # rest) = Some (c_str cs)" "wcs_of_mbs L r = Some (c_str cs)"
      by simp_all
    show ?thesis
      using False be d [of "r @ 0 # rest"] d [of r] ih
      by (simp add: bs c_str_def)
  qed
qed

section \<open>Properties of memory and of the conversion into a fresh block\<close>

lemma le_fold_max: "x \<in> set xs \<Longrightarrow> (x::nat) \<le> fold max xs b"
proof (induction xs arbitrary: b)
  case Nil then show ?case by simp
next
  case (Cons y ys)
  have mono: "\<And>zs (c::nat). c \<le> fold max zs c"
  proof -
    fix zs and c :: nat show "c \<le> fold max zs c"
      by (induction zs arbitrary: c) (auto intro: order_trans [OF max.cobounded2])
  qed
  from Cons show ?case
    using mono [of "max y b" ys] by auto
qed

lemma fresh_notin: "fresh m \<notin> fst ` set m"
proof
  assume "fresh m \<in> fst ` set m"
  then have "fresh m \<in> set (map fst m)" by simp
  then have "fresh m \<le> fold max (map fst m) 0" by (rule le_fold_max)
  then show False by (simp add: fresh_def)
qed

lemma map_of_fresh: "map_of m (fresh m) = None"
  using fresh_notin [of m] by (simp add: map_of_eq_None_iff)

lemma store_absent: "a \<notin> fst ` set m \<Longrightarrow> map (\<lambda>kv. if fst kv = a then (a, b) else kv) m = m"
  by (induction m) auto

lemma filter_absent: "a \<notin> fst ` set m \<Longrightarrow> filter (\<lambda>kv. fst kv \<noteq> a) m = m"
  by (induction m) auto

lemma c_str_terminated: "0 \<notin> set xs \<Longrightarrow> c_str (xs @ 0 # ys) = xs"
  by (induction xs) (auto simp: c_str_def)

lemma c_str_clean: "0 \<notin> set xs \<Longrightarrow> c_str xs = xs"
  by (induction xs) (auto simp: c_str_def)

lemma convert_query:
  "mbs_of_wcs (lc_ctype s) p = Some enc \<Longrightarrow> wcstombs_null p s = (Some (length enc), s)"
  by (simp add: wcstombs_null_def wcstombs_len_eq)

lemma convert_fails:
  "mbs_of_wcs (lc_ctype s) p = None \<Longrightarrow> wcstombs_null p s = (None, s\<lparr>errno := EILSEQ\<rparr>)"
  by (simp add: wcstombs_null_def wcstombs_len_eq)

lemma malloc_fails:
  "\<not> (n \<le> PTRDIFF_MAX \<and> os_malloc (env s) (trace s) n) \<Longrightarrow>
   malloc n s = (None, s\<lparr>errno := ENOMEM, trace := trace s @ [Malloc n None]\<rparr>)"
  by (auto simp: malloc_def alloc_def)

lemma malloc_succeeds:
  "n \<le> PTRDIFF_MAX \<Longrightarrow> os_malloc (env s) (trace s) n \<Longrightarrow>
   malloc n s = (Some (fresh (mem s)),
                 s\<lparr>mem := (fresh (mem s), Bytes (replicate n 0)) # mem s,
                   trace := trace s @ [Malloc n (Some (fresh (mem s)))]\<rparr>)"
  by (simp add: malloc_def alloc_def Let_def)

lemma convert_store:
  assumes enc: "mbs_of_wcs (lc_ctype s) p = Some enc"
      and a: "a \<notin> fst ` set m"
      and old: "length old = Suc (length enc)"
  shows "wcstombs a p (Suc (length enc)) (s\<lparr>mem := (a, Bytes old) # m, trace := h\<rparr>)
         = Some (Some (length enc), s\<lparr>mem := (a, Bytes (enc @ [0])) # m, trace := h\<rparr>)"
proof -
  have out: "wcstombs_out (lc_ctype s) p (Suc (length enc)) = (enc @ [0], Some (length enc))"
    using wcstombs_out_full [OF enc, of "Suc (length enc)"] by simp
  show ?thesis
    using out a old by (simp add: wcstombs_def write_bytes_def store_def store_absent)
qed

lemma str_at_head:
  "0 \<notin> set enc \<Longrightarrow> str_at (s\<lparr>mem := (a, Bytes (enc @ [0])) # m, trace := h\<rparr>) a = Some enc"
  by (simp add: str_at_def c_str_terminated)

section \<open>The functions in closed form\<close>

lemma wchdir_compat_closed:
  "wchdir_compat (Some p) s =
     (case mbs_of_wcs (lc_ctype s) p of
        None \<Rightarrow> Some (- 1, s\<lparr>errno := EILSEQ\<rparr>)
      | Some enc \<Rightarrow>
          if length enc + 1 \<le> PTRDIFF_MAX \<and> os_malloc (env s) (trace s) (length enc + 1) then
            (let a = fresh (mem s); h = trace s @ [Malloc (length enc + 1) (Some a)]
             in case os_chdir (env s) h enc of
                  None \<Rightarrow> Some (0, s\<lparr>trace := h @ [Chdir enc, Free a]\<rparr>)
                | Some e \<Rightarrow> Some (- 1, s\<lparr>errno := e, trace := h @ [Chdir enc, Free a]\<rparr>))
          else Some (- 1, s\<lparr>errno := ENOMEM,
                             trace := trace s @ [Malloc (length enc + 1) None]\<rparr>))"
proof (cases "mbs_of_wcs (lc_ctype s) p")
  case None
  then show ?thesis by (simp add: wchdir_compat_def convert_fails)
next
  case (Some enc)
  note nz = mbs_of_wcs_nonzero [OF Some]
  show ?thesis
  proof (cases "Suc (length enc) \<le> PTRDIFF_MAX \<and> os_malloc (env s) (trace s) (Suc (length enc))")
    case False
    with Some show ?thesis
      by (auto simp: wchdir_compat_def convert_query malloc_fails)
  next
    case True
    with Some nz show ?thesis
      by (simp add: wchdir_compat_def convert_query malloc_succeeds convert_store fresh_notin
               str_at_head chdir_def free_def filter_absent Let_def split: option.splits)
  qed
qed

lemma fresh_cons_neq: "fresh ((a, x) # m) \<noteq> a"
  using fresh_notin [of "(a, x) # m"] by auto

lemma fresh_cons_neq': "a \<noteq> fresh ((a, x) # m)"
  using fresh_cons_neq [of a x m] by auto

lemma fresh_cons_notin: "fresh ((a, x) # m) \<notin> fst ` set m"
  using fresh_notin [of "(a, x) # m"] by auto

lemma filter_absent2:
  "a \<notin> fst ` set m \<Longrightarrow> b \<notin> fst ` set m \<Longrightarrow>
   filter (\<lambda>kv. fst kv \<noteq> a \<and> fst kv \<noteq> b) m = m"
  by (induction m) auto

lemma str_at_second:
  "a \<noteq> b \<Longrightarrow> 0 \<notin> set enc \<Longrightarrow>
   str_at (s\<lparr>mem := (b, y) # (a, Bytes (enc @ [0])) # m, trace := h\<rparr>) a = Some enc"
  by (simp add: str_at_def c_str_terminated)

lemma convert_store2:
  assumes enc: "mbs_of_wcs (lc_ctype s) p = Some enc"
      and a: "a \<notin> fst ` set m" "a \<noteq> b"
      and old: "length old = Suc (length enc)"
  shows "wcstombs a p (Suc (length enc)) (s\<lparr>mem := (a, Bytes old) # (b, y) # m, trace := h\<rparr>)
         = Some (Some (length enc), s\<lparr>mem := (a, Bytes (enc @ [0])) # (b, y) # m, trace := h\<rparr>)"
  using convert_store [OF enc, of a "(b, y) # m" old h] a old by simp

lemma wremove_closed:
  "wremove (Some p) s =
     (case mbs_of_wcs (lc_ctype s) p of
        None \<Rightarrow> Some (- 1, s\<lparr>errno := EILSEQ\<rparr>)
      | Some enc \<Rightarrow>
          if length enc + 1 \<le> PTRDIFF_MAX \<and> os_malloc (env s) (trace s) (length enc + 1) then
            (let a = fresh (mem s); h = trace s @ [Malloc (length enc + 1) (Some a)]
             in case os_remove (env s) h enc of
                  None \<Rightarrow> Some (0, s\<lparr>trace := h @ [Remove enc, Free a]\<rparr>)
                | Some e \<Rightarrow> Some (- 1, s\<lparr>errno := e, trace := h @ [Remove enc, Free a]\<rparr>))
          else Some (- 1, s\<lparr>errno := ENOMEM,
                             trace := trace s @ [Malloc (length enc + 1) None]\<rparr>))"
proof (cases "mbs_of_wcs (lc_ctype s) p")
  case None
  then show ?thesis by (simp add: wremove_def convert_fails)
next
  case (Some enc)
  note nz = mbs_of_wcs_nonzero [OF Some]
  show ?thesis
  proof (cases "Suc (length enc) \<le> PTRDIFF_MAX \<and> os_malloc (env s) (trace s) (Suc (length enc))")
    case False
    with Some show ?thesis
      by (auto simp: wremove_def convert_query malloc_fails)
  next
    case True
    with Some nz show ?thesis
      by (simp add: wremove_def convert_query malloc_succeeds convert_store fresh_notin
               str_at_head remove_file_def free_def filter_absent Let_def split: option.splits)
  qed
qed

lemma wrename_closed:
  "wrename (Some p) (Some q) s =
     (case mbs_of_wcs (lc_ctype s) p of
        None \<Rightarrow> Some (- 1, s\<lparr>errno := EILSEQ\<rparr>)
      | Some eo \<Rightarrow>
          if \<not> (length eo + 1 \<le> PTRDIFF_MAX \<and> os_malloc (env s) (trace s) (length eo + 1))
          then Some (- 1, s\<lparr>errno := ENOMEM, trace := trace s @ [Malloc (length eo + 1) None]\<rparr>)
          else
            (let a = fresh (mem s); h1 = trace s @ [Malloc (length eo + 1) (Some a)]
             in case mbs_of_wcs (lc_ctype s) q of
                  None \<Rightarrow> Some (- 1, s\<lparr>errno := EILSEQ, trace := h1 @ [Free a]\<rparr>)
                | Some en \<Rightarrow>
                    if \<not> (length en + 1 \<le> PTRDIFF_MAX \<and> os_malloc (env s) h1 (length en + 1))
                    then Some (- 1, s\<lparr>errno := ENOMEM,
                                       trace := h1 @ [Malloc (length en + 1) None, Free a]\<rparr>)
                    else
                      (let b = fresh ((a, Bytes (eo @ [0])) # mem s);
                           h2 = h1 @ [Malloc (length en + 1) (Some b)]
                       in case os_rename (env s) h2 eo en of
                            None \<Rightarrow>
                              Some (0, s\<lparr>trace := h2 @ [Rename eo en, Free a, Free b]\<rparr>)
                          | Some e \<Rightarrow>
                              Some (- 1, s\<lparr>errno := e,
                                             trace := h2 @ [Rename eo en, Free a, Free b]\<rparr>))))"
proof (cases "mbs_of_wcs (lc_ctype s) p")
  case None
  then show ?thesis by (simp add: wrename_def convert_fails)
next
  case eo: (Some eo)
  note nzo = mbs_of_wcs_nonzero [OF eo]
  show ?thesis
  proof (cases "Suc (length eo) \<le> PTRDIFF_MAX \<and> os_malloc (env s) (trace s) (Suc (length eo))")
    case False
    with eo show ?thesis
      by (auto simp: wrename_def convert_query malloc_fails)
  next
    case ok1: True
    show ?thesis
    proof (cases "mbs_of_wcs (lc_ctype s) q")
      case None
      with eo ok1 nzo show ?thesis
        by (simp add: wrename_def convert_query malloc_succeeds convert_store fresh_notin
              convert_fails free_def filter_absent Let_def)
    next
      case en: (Some en)
      note nzn = mbs_of_wcs_nonzero [OF en]
      show ?thesis
      proof (cases "Suc (length en) \<le> PTRDIFF_MAX \<and> os_malloc (env s) (trace s @ [Malloc (Suc (length eo)) (Some (fresh (mem s)))]) (Suc (length en))")
        case False
        with eo ok1 nzo en show ?thesis
          by (auto simp: wrename_def convert_query malloc_succeeds convert_store fresh_notin
              malloc_fails free_def filter_absent Let_def)
      next
        case ok2: True
        with eo ok1 nzo en nzn show ?thesis
          by (simp add: wrename_def convert_query malloc_succeeds convert_store fresh_notin
              convert_store2 fresh_cons_neq fresh_cons_neq' fresh_cons_notin str_at_head str_at_second
              rename_file_def free_def filter_absent filter_absent2 Let_def split: option.splits)
      qed
    qed
  qed
qed

lemma wfopen_closed:
  "wfopen (Some p) (Some q) s =
     (case mbs_of_wcs (lc_ctype s) p of
        None \<Rightarrow> Some (None, s\<lparr>errno := EILSEQ\<rparr>)
      | Some ef \<Rightarrow>
          if \<not> (length ef + 1 \<le> PTRDIFF_MAX \<and> os_malloc (env s) (trace s) (length ef + 1))
          then Some (None, s\<lparr>errno := ENOMEM, trace := trace s @ [Malloc (length ef + 1) None]\<rparr>)
          else
            (let a = fresh (mem s); h1 = trace s @ [Malloc (length ef + 1) (Some a)]
             in case mbs_of_wcs (lc_ctype s) q of
                  None \<Rightarrow> Some (None, s\<lparr>errno := EILSEQ, trace := h1 @ [Free a]\<rparr>)
                | Some em \<Rightarrow>
                    if \<not> (length em + 1 \<le> PTRDIFF_MAX \<and> os_malloc (env s) h1 (length em + 1))
                    then Some (None, s\<lparr>errno := ENOMEM,
                                       trace := h1 @ [Malloc (length em + 1) None, Free a]\<rparr>)
                    else
                      (let b = fresh ((a, Bytes (ef @ [0])) # mem s);
                           h2 = h1 @ [Malloc (length em + 1) (Some b)]
                       in case os_fopen (env s) h2 ef em of
                            Inr f \<Rightarrow>
                              Some (Some f, s\<lparr>trace := h2 @ [Fopen ef em, Free a, Free b]\<rparr>)
                          | Inl e \<Rightarrow>
                              Some (None, s\<lparr>errno := e,
                                             trace := h2 @ [Fopen ef em, Free a, Free b]\<rparr>))))"
proof (cases "mbs_of_wcs (lc_ctype s) p")
  case None
  then show ?thesis by (simp add: wfopen_def convert_fails)
next
  case eo: (Some eo)
  note nzo = mbs_of_wcs_nonzero [OF eo]
  show ?thesis
  proof (cases "Suc (length eo) \<le> PTRDIFF_MAX \<and> os_malloc (env s) (trace s) (Suc (length eo))")
    case False
    with eo show ?thesis
      by (auto simp: wfopen_def convert_query malloc_fails)
  next
    case ok1: True
    show ?thesis
    proof (cases "mbs_of_wcs (lc_ctype s) q")
      case None
      with eo ok1 nzo show ?thesis
        by (simp add: wfopen_def convert_query malloc_succeeds convert_store fresh_notin
              convert_fails free_def filter_absent Let_def)
    next
      case en: (Some en)
      note nzn = mbs_of_wcs_nonzero [OF en]
      show ?thesis
      proof (cases "Suc (length en) \<le> PTRDIFF_MAX \<and> os_malloc (env s) (trace s @ [Malloc (Suc (length eo)) (Some (fresh (mem s)))]) (Suc (length en))")
        case False
        with eo ok1 nzo en show ?thesis
          by (auto simp: wfopen_def convert_query malloc_succeeds convert_store fresh_notin
              malloc_fails free_def filter_absent Let_def)
      next
        case ok2: True
        with eo ok1 nzo en nzn show ?thesis
          by (simp add: wfopen_def convert_query malloc_succeeds convert_store fresh_notin
              convert_store2 fresh_cons_neq fresh_cons_neq' fresh_cons_notin str_at_head str_at_second
              fopen_def free_def filter_absent filter_absent2 Let_def split: sum.splits)
      qed
    qed
  qed
qed

lemma c_str_no_nul: "0 \<notin> set (c_str xs)"
  by (induction xs) (auto simp: c_str_def)

lemma c_str_idem: "c_str (c_str xs) = c_str xs"
  by (rule c_str_clean) (rule c_str_no_nul)

lemma decode_query:
  "wcs_of_mbs (lc_ctype s) str = Some ws \<Longrightarrow> mbstowcs_null str s = (Some (length ws), s)"
  by (simp add: mbstowcs_null_def mbstowcs_len_eq)

lemma decode_fails:
  "wcs_of_mbs (lc_ctype s) str = None \<Longrightarrow> mbstowcs_null str s = (None, s\<lparr>errno := EILSEQ\<rparr>)"
  by (simp add: mbstowcs_null_def mbstowcs_len_eq)

lemma store_keys: "map fst (map (\<lambda>kv. if fst kv = a then (a, b) else kv) m) = map fst m"
  by (induction m) auto

lemma store_keys_set: "fst ` set (map (\<lambda>kv. if fst kv = a then (a, b) else kv) m) = fst ` set m"
  using store_keys [of a b m] by (metis list.set_map)

lemma mbstowcs_full:
  assumes "wcs_of_mbs (lc_ctype s) str = Some ws" "length ws < n"
  shows "mbstowcs d str n s =
         (case map_of (mem s) d of
            Some (Wides old) \<Rightarrow>
              if Suc (length ws) \<le> length old
              then Some (Some (length ws),
                         store d (Wides (ws @ 0 # drop (Suc (length ws)) old)) s)
              else None
          | _ \<Rightarrow> None)"
  using mbstowcs_out_full [OF assms]
  by (simp add: mbstowcs_def write_wides_def split: option.splits block.splits)

lemma getcwd_ok:
  "os_getcwd (env s) (trace s) = Inr p \<Longrightarrow>
   getcwd s = (Some (fresh (mem s)),
               s\<lparr>mem := (fresh (mem s), Bytes (c_str p @ [0])) # mem s,
                 trace := trace s @ [Getcwd]\<rparr>)"
  by (simp add: getcwd_def Let_def)

lemma getcwd_err:
  "os_getcwd (env s) (trace s) = Inl e \<Longrightarrow>
   getcwd s = (None, s\<lparr>errno := e, trace := trace s @ [Getcwd]\<rparr>)"
  by (simp add: getcwd_def)

lemma malloc_wchar_fails:
  "\<not> (k * 4 \<le> PTRDIFF_MAX \<and> os_malloc (env s) (trace s) (k * 4)) \<Longrightarrow>
   malloc_wchar k s = (None, s\<lparr>errno := ENOMEM, trace := trace s @ [Malloc (k * 4) None]\<rparr>)"
  by (auto simp: malloc_wchar_def alloc_def)

lemma malloc_wchar_succeeds:
  "k * 4 \<le> PTRDIFF_MAX \<Longrightarrow> os_malloc (env s) (trace s) (k * 4) \<Longrightarrow>
   malloc_wchar k s = (Some (fresh (mem s)),
                 s\<lparr>mem := (fresh (mem s), Wides (replicate k 0)) # mem s,
                   trace := trace s @ [Malloc (k * 4) (Some (fresh (mem s)))]\<rparr>)"
  by (simp add: malloc_wchar_def alloc_def Let_def)

lemma filter_store:
  "a \<notin> fst ` set m \<Longrightarrow>
   filter (\<lambda>kv. fst kv \<noteq> a) (map (\<lambda>kv. if fst kv = d then (d, b) else kv) m)
   = map (\<lambda>kv. if fst kv = d then (d, b) else kv) m"
  by (induction m) auto

lemma wgetcwd_compat_closed:
  "wgetcwd_compat buffer sz s =
     (case os_getcwd (env s) (trace s) of
        Inl e \<Rightarrow> Some (None, s\<lparr>errno := e, trace := trace s @ [Getcwd]\<rparr>)
      | Inr p \<Rightarrow>
          (let a = fresh (mem s); h = trace s @ [Getcwd]
           in case wcs_of_mbs (lc_ctype s) (c_str p) of
                None \<Rightarrow> Some (None, s\<lparr>errno := EILSEQ, trace := h @ [Free a]\<rparr>)
              | Some ws \<Rightarrow>
                  if buffer = None \<or> sz = 0 then
                    (if (length ws + 1) * 4 \<le> PTRDIFF_MAX
                        \<and> os_malloc (env s) h ((length ws + 1) * 4)
                     then
                       (let b = fresh ((a, Bytes (c_str p @ [0])) # mem s)
                        in Some (Some b,
                                 s\<lparr>mem := (b, Wides (ws @ [0])) # mem s,
                                   trace := h @ [Malloc ((length ws + 1) * 4) (Some b), Free a]\<rparr>))
                     else Some (None, s\<lparr>errno := ENOMEM,
                                        trace := h @ [Malloc ((length ws + 1) * 4) None, Free a]\<rparr>))
                  else if length ws \<ge> sz then
                    Some (None, s\<lparr>errno := ERANGE, trace := h @ [Free a]\<rparr>)
                  else
                    (case map_of (mem s) (the buffer) of
                       Some (Wides old) \<Rightarrow>
                         if length ws + 1 \<le> length old then
                           Some (buffer,
                                 s\<lparr>mem := map (\<lambda>kv. if fst kv = the buffer
                                                    then (the buffer,
                                                          Wides (ws @ 0 # drop (length ws + 1) old))
                                                    else kv) (mem s),
                                   trace := h @ [Free a]\<rparr>)
                         else None
                     | _ \<Rightarrow> None)))"
proof (cases "os_getcwd (env s) (trace s)")
  case (Inl e)
  then show ?thesis by (simp add: wgetcwd_compat_def getcwd_err)
next
  case (Inr p)
  note g = getcwd_ok [OF Inr]
  have str: "str_at (s\<lparr>mem := (fresh (mem s), Bytes (c_str p @ [0])) # mem s,
                 trace := trace s @ [Getcwd]\<rparr>) (fresh (mem s)) = Some (c_str p)"
    by (rule str_at_head) (rule c_str_no_nul)
  show ?thesis
  proof (cases "wcs_of_mbs (lc_ctype s) (c_str p)")
    case None
    with Inr show ?thesis
      by (simp add: wgetcwd_compat_def g str decode_fails free_def filter_absent fresh_notin Let_def)
  next
    case (Some ws)
    consider (auto_mode) "buffer = None \<or> sz = 0"
      | (small) "buffer \<noteq> None" "sz \<noteq> 0" "length ws \<ge> sz"
      | (fits) "buffer \<noteq> None" "sz \<noteq> 0" "length ws < sz"
      by fastforce
    then show ?thesis
    proof cases
      case auto_mode
      show ?thesis
      proof (cases "Suc (length ws) * 4 \<le> PTRDIFF_MAX \<and> os_malloc (env s) (trace s @ [Getcwd]) (Suc (length ws) * 4)")
        case False
        with Inr Some auto_mode show ?thesis
          by (auto simp: wgetcwd_compat_def g str decode_query malloc_wchar_fails
                free_def filter_absent fresh_notin Let_def)
      next
        case True
        with Inr Some auto_mode show ?thesis
          by (auto simp: wgetcwd_compat_def g str decode_query malloc_wchar_succeeds
                mbstowcs_full store_def store_absent fresh_notin fresh_cons_neq fresh_cons_neq'
                fresh_cons_notin free_def filter_absent Let_def)
      qed
    next
      case small
      with Inr Some show ?thesis
        by (auto simp: wgetcwd_compat_def g str decode_query free_def filter_absent fresh_notin Let_def)
    next
      case fits
      then obtain d where d: "buffer = Some d" by auto
      show ?thesis
      proof (cases "d = fresh (mem s)")
        case True
        with Inr Some fits d show ?thesis
          by (simp add: wgetcwd_compat_def g str decode_query mbstowcs_full map_of_fresh Let_def)
      next
        case False
        with Inr Some fits d show ?thesis
          by (auto simp: wgetcwd_compat_def g str decode_query mbstowcs_full store_def
                free_def filter_store fresh_notin Let_def
                split: option.splits block.splits)
      qed
    qed
  qed
qed

lemma wfullpath_compat_closed:
  "wfullpath_compat (Some d) (Some p) sz s =
     (if sz = 0 then Some (None, s\<lparr>errno := EINVAL\<rparr>)
      else
       (case mbs_of_wcs (lc_ctype s) p of
          None \<Rightarrow> Some (None, s\<lparr>errno := EILSEQ\<rparr>)
        | Some enc \<Rightarrow>
            if \<not> (length enc + 1 \<le> PTRDIFF_MAX \<and> os_malloc (env s) (trace s) (length enc + 1))
            then Some (None, s\<lparr>errno := ENOMEM,
                               trace := trace s @ [Malloc (length enc + 1) None]\<rparr>)
            else
              (let a = fresh (mem s);
                   h = trace s @ [Malloc (length enc + 1) (Some a)];
                   h' = h @ [Realpath enc, Free a]
               in case os_realpath (env s) h enc of
                    Inl e \<Rightarrow> Some (None, s\<lparr>errno := e, trace := h'\<rparr>)
                  | Inr r \<Rightarrow>
                      (case wcs_of_mbs (lc_ctype s) (c_str r) of
                         None \<Rightarrow> Some (None, s\<lparr>errno := ERANGE, trace := h'\<rparr>)
                       | Some ws \<Rightarrow>
                           if length ws \<ge> sz then Some (None, s\<lparr>errno := ERANGE, trace := h'\<rparr>)
                           else
                             (case map_of (mem s) d of
                                Some (Wides old) \<Rightarrow>
                                  if length ws + 1 \<le> length old then
                                    Some (Some d,
                                          s\<lparr>mem := map (\<lambda>kv. if fst kv = d
                                                      then (d, Wides (ws @ 0 # drop (length ws + 1) old))
                                                      else kv) (mem s),
                                            trace := h'\<rparr>)
                                  else None
                              | _ \<Rightarrow> None)))))"
proof (cases "sz = 0")
  case True
  then show ?thesis by (simp add: wfullpath_compat_def)
next
  case sz: False
  show ?thesis
  proof (cases "mbs_of_wcs (lc_ctype s) p")
    case None
    with sz show ?thesis by (simp add: wfullpath_compat_def convert_fails)
  next
    case (Some enc)
    note nz = mbs_of_wcs_nonzero [OF Some]
    show ?thesis
    proof (cases "Suc (length enc) \<le> PTRDIFF_MAX \<and> os_malloc (env s) (trace s) (Suc (length enc))")
      case False
      with sz Some show ?thesis
        by (auto simp: wfullpath_compat_def convert_query malloc_fails)
    next
      case ok: True
      show ?thesis
      proof (cases "os_realpath (env s) (trace s @ [Malloc (Suc (length enc)) (Some (fresh (mem s)))]) enc")
        case (Inl e)
        with sz Some nz ok show ?thesis
          by (simp add: wfullpath_compat_def convert_query malloc_succeeds convert_store fresh_notin
               str_at_head realpath_def free_def filter_absent Let_def)
      next
        case (Inr r)
        show ?thesis
        proof (cases "wcs_of_mbs (lc_ctype s) (c_str r)")
          case None
          with sz Some nz ok Inr show ?thesis
            by (simp add: wfullpath_compat_def convert_query malloc_succeeds convert_store fresh_notin
                 str_at_head realpath_def free_def filter_absent decode_fails Let_def)
        next
          case ws: (Some ws)
          show ?thesis
          proof (cases "length ws \<ge> sz")
            case True
            with sz Some nz ok Inr ws show ?thesis
              by (simp add: wfullpath_compat_def convert_query malloc_succeeds convert_store fresh_notin
                   str_at_head realpath_def free_def filter_absent decode_query Let_def)
          next
            case False
            with sz Some nz ok Inr ws show ?thesis
              by (simp add: wfullpath_compat_def convert_query malloc_succeeds convert_store fresh_notin
                   str_at_head realpath_def free_def filter_absent decode_query mbstowcs_full
                   store_def Let_def split: option.splits block.splits)
          qed
        qed
      qed
    qed
  qed
qed

section \<open>The conversion of MultiByteToWideChar\_compat\<close>

lemma mbstowcs_out_trunc:
  "wcs_of_mbs L bs = Some ws \<Longrightarrow> n \<le> length ws \<Longrightarrow> mbstowcs_out L bs n = (take n ws, Some n)"
proof (induction L bs arbitrary: ws n rule: wcs_of_mbs.induct)
  case (1 L)
  then show ?case by simp
next
  case (2 L b bs)
  show ?case
  proof (cases "n = 0")
    case True
    then show ?thesis by simp
  next
    case n: False
    show ?thesis
    proof (cases "b = 0")
      case True
      with 2 n show ?thesis by simp
    next
      case b: False
      with "2.prems" obtain c k ws' where d: "mbtowc L b bs = Some (c, k)"
        and r: "wcs_of_mbs L (drop k bs) = Some ws'" and w: "ws = c # ws'"
        by (auto split: option.splits)
      from "2.prems" w n have "n - 1 \<le> length ws'" by simp
      with "2.IH" [OF b d refl r, of "n - 1"] d
      have "mbstowcs_out L (drop k bs) (n - 1) = (take (n - 1) ws', Some (n - 1))"
        by simp
      with b n d w show ?thesis by (cases n) simp_all
    qed
  qed
qed

lemma mbstowcs_out_min:
  assumes "wcs_of_mbs L bs = Some ws"
  shows "mbstowcs_out L bs n =
         (if length ws < n then (ws @ [0], Some (length ws)) else (take n ws, Some n))"
  using mbstowcs_out_full [OF assms, of n] mbstowcs_out_trunc [OF assms, of n] by simp

lemma c_str_padded:
  "0 \<notin> set xs \<Longrightarrow> c_str (xs @ replicate k 0 @ [0]) = xs"
  by (induction xs) (auto simp: c_str_def takeWhile_eq_Nil_iff neq_Nil_conv hd_append)

lemma sint_of_nat_small: "k < 2 ^ 31 \<Longrightarrow> sint (of_nat k :: 32 word) = int k"
  by (simp add: signed_of_nat signed_take_bit_int_eq_self)

lemma lazy_setlocale_frame [simp]:
  "mem (lazy_setlocale s) = mem s" "env (lazy_setlocale s) = env s"
  "program_path (lazy_setlocale s) = program_path s"
  by (simp_all add: lazy_setlocale_def setlocale_def)

lemma lazy_setlocale_errno:
  "errno (lazy_setlocale s)
   = (if locale_set s then errno s
      else case snd (os_setlocale (env s) (trace s)) of None \<Rightarrow> errno s | Some e \<Rightarrow> e)"
  by (simp add: lazy_setlocale_def setlocale_def)

lemma map_of_store:
  "map_of (map (\<lambda>kv. if fst kv = d then (d, b) else kv) m) d
   = (if d \<in> fst ` set m then Some b else None)"
  by (induction m) auto

lemma store_store:
  "map (\<lambda>kv. if fst kv = d then (d, b2) else kv) (map (\<lambda>kv. if fst kv = d then (d, b1) else kv) m)
   = map (\<lambda>kv. if fst kv = d then (d, b2) else kv) m"
  by (induction m) auto

lemma map_of_in_keys: "map_of m d = Some v \<Longrightarrow> d \<in> fst ` set m"
  by (metis domI dom_map_of_conv_image_fst)

lemma MultiByteToWideChar_core:
  fixes dstlen srclen :: "32 word"
  assumes dl: "0 < sint dstlen"
    and sl: "srclen1 = (if srclen = - 1 then of_nat (length (c_str sp)) else srclen)"
            "0 \<le> sint srclen1" "sint srclen1 < 2 ^ 31 - 1"
    and ok: "os_malloc (env s) (trace (lazy_setlocale s)) (Suc (nat (sint srclen1)))"
    and old: "map_of (mem s) d = Some (Wides old)" "nat (sint dstlen) \<le> length old"
    and ws: "wcs_of_mbs (lc_ctype (lazy_setlocale s)) (take (nat (sint srclen1)) (c_str sp)) = Some ws"
  shows "MultiByteToWideChar_compat cp flags (Some sp) srclen (Some d) dstlen s =
         Some (int (min (length ws) (nat (sint dstlen) - 1)),
               (lazy_setlocale s)
                 \<lparr>mem := map (\<lambda>kv. if fst kv = d
                              then (d, Wides (take (min (length ws) (nat (sint dstlen) - 1)) ws
                                     @ 0 # drop (Suc (min (length ws) (nat (sint dstlen) - 1))) old))
                              else kv) (mem s),
                   trace := trace (lazy_setlocale s)
                            @ [Malloc (Suc (nat (sint srclen1))) (Some (fresh (mem s))),
                               Free (fresh (mem s))]\<rparr>)"
proof -
  define s1 where "s1 = lazy_setlocale s"
  define n where "n = nat (sint srclen1)"
  define N where "N = nat (sint dstlen) - 1"
  define a where "a = fresh (mem s)"
  define h where "h = trace s1 @ [Malloc (Suc n) (Some a)]"
  define str where "str = take n (c_str sp)"
  define pad where "pad = str @ replicate (n - length (c_str sp)) 0"
  define m where "m = min (length ws) N"
  have mem1 [simp]: "mem s1 = mem s" and env1 [simp]: "env s1 = env s"
    by (simp_all add: s1_def)
  have N': "nat (sint dstlen - 1) = N" using dl by (simp add: N_def)
  have Nold: "N < length old" using dl old(2) by (simp add: N_def)
  have sz: "nat ((sint srclen1 + 1) mod 2 ^ 64) = Suc n"
  proof -
    have "(sint srclen1 + 1) mod 2 ^ 64 = sint srclen1 + 1"
      using sl(2,3) by (intro mod_pos_pos_trivial) simp_all
    then show ?thesis using sl(2) by (simp add: n_def nat_add_distrib)
  qed
  have sz': "nat (sint srclen1 + 1) = Suc n"
    using sl(2) by (simp add: n_def nat_add_distrib)
  have cnt: "nat (sint srclen1 mod 2 ^ 64) = n"
  proof -
    have "sint srclen1 mod 2 ^ 64 = sint srclen1"
      using sl(2,3) by (intro mod_pos_pos_trivial) simp_all
    then show ?thesis by (simp add: n_def)
  qed
  have nle: "Suc n \<le> PTRDIFF_MAX"
    using sl(3) by (simp add: n_def PTRDIFF_MAX_def)
  have afresh: "a \<notin> fst ` set (mem s)" unfolding a_def by (rule fresh_notin)
  have da: "d \<noteq> a" using map_of_in_keys [OF old(1)] afresh by auto
  define s2 where "s2 = s1\<lparr>mem := (a, Bytes (replicate (Suc n) 0)) # mem s, trace := h\<rparr>"
  have mal: "malloc (Suc n) s1 = (Some a, s2)"
    using nle ok by (simp add: malloc_succeeds s1_def [symmetric] a_def s2_def h_def n_def)
  have padlen: "length pad = n"
    by (simp add: pad_def str_def)
  define s3 where "s3 = s1\<lparr>mem := (a, Bytes (pad @ [0])) # mem s, trace := h\<rparr>"
  have "drop n (replicate (Suc n) (0 :: char_t)) = [0]"
    by (simp only: drop_replicate) simp
  then have dr: "drop n (0 # replicate n (0 :: char_t)) = [0]"
    by simp
  have cpy: "strncpy a sp n s2 = Some s3"
    using afresh padlen dr
    by (simp add: strncpy_def write_bytes_def s2_def s3_def store_def store_absent
          pad_def [symmetric] str_def [symmetric])
  have pk: "poke_byte a n 0 s3 = Some s3"
    using afresh padlen
    by (simp add: poke_byte_def s3_def store_def store_absent nth_append list_update_append)
  have nz: "0 \<notin> set str" unfolding str_def using c_str_no_nul [of sp]
    by (auto dest: in_set_takeD)
  have rd: "str_at s3 a = Some str"
    using c_str_padded [OF nz, of "n - length (c_str sp)"]
    by (simp add: str_at_def s3_def pad_def)
  have loc3: "lc_ctype s3 = lc_ctype s1" by (simp add: s3_def)
  have ws': "wcs_of_mbs (lc_ctype s3) str = Some ws"
    using ws by (simp add: loc3 s1_def str_def n_def)
  define out where "out = (if length ws < N then ws @ [0] else take N ws)"
  have outlen: "length out \<le> length old"
    using Nold by (simp add: out_def)
  define s5 where "s5 = s1\<lparr>mem := (a, Bytes (pad @ [0]))
                       # map (\<lambda>kv. if fst kv = d then (d, Wides (out @ drop (length out) old)) else kv)
                           (mem s),
                         trace := h\<rparr>"
  have conv: "mbstowcs d str N s3 = Some (Some m, s5)"
    using mbstowcs_out_min [OF ws', of N] da old(1) outlen Nold
    by (auto simp: mbstowcs_def write_wides_def s3_def s5_def store_def out_def m_def min_def)
  define s6 where "s6 = s1\<lparr>mem := map (\<lambda>kv. if fst kv = d then (d, Wides (out @ drop (length out) old)) else kv)
                           (mem s),
                         trace := h @ [Free a]\<rparr>"
  have fr: "free a s5 = s6"
    using afresh by (simp add: free_def s5_def s6_def filter_store)
  have din: "d \<in> fst ` set (mem s)" using old(1) by (rule map_of_in_keys)
  have final: "(out @ drop (length out) old)[m := 0] = take m ws @ 0 # drop (Suc m) old"
  proof (cases "length ws < N")
    case True
    then show ?thesis
      by (simp add: out_def m_def min_def list_update_append nth_append)
  next
    case False
    then have o: "out = take N ws" "length out = N" "m = N" and mn: "min (length ws) N = N"
      by (simp_all add: out_def m_def)
    have "drop N old = old ! N # drop (Suc N) old"
      using Nold by (simp add: Cons_nth_drop_Suc)
    then show ?thesis
      by (simp add: o list_update_append mn)
  qed
  have mlt: "m < length (out @ drop (length out) old)"
    using Nold outlen by (auto simp: m_def out_def min_def)
  define s7 where "s7 = s1\<lparr>mem := map (\<lambda>kv. if fst kv = d
                              then (d, Wides (take m ws @ 0 # drop (Suc m) old)) else kv) (mem s),
                         trace := h @ [Free a]\<rparr>"
  have pw: "poke_wide d m 0 s6 = Some s7"
    using din mlt final
    by (simp add: poke_wide_def s6_def s7_def map_of_store store_def store_store)
  have mN: "m < N \<or> m = N" by (auto simp: m_def)
  have res: "(if m < N then poke_wide d m 0 s6 \<bind> (\<lambda>s7. Some (int m, s7))
              else poke_wide d N 0 s6 \<bind> (\<lambda>s7. Some (sint dstlen - 1, s7)))
             = Some (int m, s7)"
  proof (cases "m < N")
    case True
    then show ?thesis by (simp add: pw)
  next
    case False
    with mN have "m = N" by simp
    moreover have "sint dstlen - 1 = int N" using dl by (simp add: N_def)
    ultimately show ?thesis using pw by simp
  qed
  have "MultiByteToWideChar_compat cp flags (Some sp) srclen (Some d) dstlen s = Some (int m, s7)"
  proof (cases "srclen = - 1")
    case True
    with sl(1) have e: "of_nat (length (c_str sp)) = srclen1" by simp
    show ?thesis
      using dl sl(2,3) res True
      by (auto simp: MultiByteToWideChar_compat_def e s1_def [symmetric] Let_def
            sz sz' cnt mal cpy n_def [symmetric] pk rd N' conv fr split: if_splits)
  next
    case False
    with sl(1) have e: "srclen = srclen1" by simp
    show ?thesis
      using dl sl(2,3) res False
      by (auto simp: MultiByteToWideChar_compat_def e s1_def [symmetric] Let_def
            sz sz' cnt mal cpy n_def [symmetric] pk rd N' conv fr split: if_splits)
  qed
  then show ?thesis
    by (simp add: s7_def m_def N_def h_def s1_def a_def n_def)
qed

lemma representable_encodes: "representable c \<Longrightarrow> \<exists>bs. utf8_encode c = Some bs"
  by (auto simp: representable_def utf8_encode_def Let_def)

lemma mbs_of_wcs_total:
  "\<forall>c\<in>set W. representable c \<Longrightarrow> \<exists>enc. mbs_of_wcs UTF8_locale W = Some enc"
proof (induction W)
  case Nil
  then show ?case by simp
next
  case (Cons c W)
  then obtain enc where "mbs_of_wcs UTF8_locale W = Some enc" by auto
  moreover from Cons.prems obtain bs where "utf8_encode c = Some bs"
    using representable_encodes [of c] by auto
  ultimately show ?case by simp
qed

lemma MultiByteToWideChar_nomem:
  fixes dstlen srclen :: "32 word"
  assumes dl: "0 < sint dstlen"
    and sl: "srclen1 = (if srclen = - 1 then of_nat (length (c_str sp)) else srclen)"
            "0 \<le> sint srclen1" "sint srclen1 < 2 ^ 31 - 1"
    and no: "\<not> os_malloc (env s) (trace (lazy_setlocale s)) (Suc (nat (sint srclen1)))"
  shows "MultiByteToWideChar_compat cp flags (Some sp) srclen (Some d) dstlen s =
         Some (0, (lazy_setlocale s)
                    \<lparr>errno := ENOMEM,
                      trace := trace (lazy_setlocale s) @ [Malloc (Suc (nat (sint srclen1))) None]\<rparr>)"
proof -
  have sz: "nat ((sint srclen1 + 1) mod 2 ^ 64) = Suc (nat (sint srclen1))"
  proof -
    have "(sint srclen1 + 1) mod 2 ^ 64 = sint srclen1 + 1"
      using sl(2,3) by (intro mod_pos_pos_trivial) simp_all
    then show ?thesis using sl(2) by (simp add: nat_add_distrib)
  qed
  have sz': "nat (sint srclen1 + 1) = Suc (nat (sint srclen1))"
    using sl(2) by (simp add: nat_add_distrib)
  have m: "malloc (Suc (nat (sint srclen1))) (lazy_setlocale s)
           = (None, (lazy_setlocale s)
                    \<lparr>errno := ENOMEM,
                      trace := trace (lazy_setlocale s) @ [Malloc (Suc (nat (sint srclen1))) None]\<rparr>)"
    using no by (simp add: malloc_def alloc_def)
  show ?thesis
  proof (cases "srclen = - 1")
    case True
    with dl sl m sz sz' show ?thesis
      by (simp add: MultiByteToWideChar_compat_def Let_def)
  next
    case False
    with dl sl m sz sz' show ?thesis
      by (simp add: MultiByteToWideChar_compat_def Let_def)
  qed
qed

section \<open>Facts about the example worlds\<close>



lemma w0_cwd: "wcs_of_mbs (lc_ctype w0) (c_str [0x2F, 0x61]) = Some [0x2F, 0x61]"
  by (simp add: w0_def c_str_def utf8_decode_def)

lemma enc_de: "mbs_of_wcs UTF8_locale [0x64, 0xE9] = Some [0x64, 0xC3, 0xA9]"
  by (simp add: utf8_encode_def)

lemma dec_de: "wcs_of_mbs UTF8_locale (c_str [0x2F, 0x64, 0xC3, 0xA9]) = Some [0x2F, 0x64, 0xE9]"
  by (simp add: c_str_def utf8_decode_def is_cont_def cont_bits_def)



lemma fresh_w0: "fresh (mem w0) = 3"
  by (simp add: fresh_def w0_def)

lemma lazy_w0:
  "lazy_setlocale w0 = w0\<lparr>locale_set := True, trace := [Setlocale]\<rparr>"
  by (simp add: lazy_setlocale_def setlocale_def w0_def os_ok_def)

lemma dec_abc: "wcs_of_mbs UTF8_locale [0x61, 0x62, 0x63] = Some [0x61, 0x62, 0x63]"
  by (simp add: utf8_decode_def)

lemma lc_lazy_w0: "lc_ctype (lazy_setlocale w0) = UTF8_locale"
  by (simp add: lazy_w0) (simp add: w0_def)

lemma lc_lazy_w_nomem: "lc_ctype (lazy_setlocale w_nomem) = UTF8_locale"
  by (simp add: lazy_setlocale_def setlocale_def w_nomem_def w0_def os_ok_def)

lemma lc_lazy_w_enoent: "lc_ctype (lazy_setlocale w_enoent) = UTF8_locale"
  by (simp add: lazy_setlocale_def setlocale_def w_enoent_def w0_def os_ok_def)

lemma c_str_abc: "c_str [0x61, 0x62, 0x63 :: char_t] = [0x61, 0x62, 0x63]"
  by (simp add: c_str_def)

section \<open>What the functions leave behind\<close>

subsection \<open>The primitives\<close>

lemma keys_store [simp]: "keys (store a b s) = keys s"
  by (simp add: keys_def store_def store_keys)

lemma locale_state_store [simp]: "locale_state (store a b s) = locale_state s"
  by (simp add: locale_state_def store_def setlocale_calls_def)

lemma keys_errno [simp]: "keys (s\<lparr>errno := e\<rparr>) = keys s"
  by (simp add: keys_def)

lemma locale_state_errno [simp]: "locale_state (s\<lparr>errno := e\<rparr>) = locale_state s"
  by (simp add: locale_state_def setlocale_calls_def)

lemma keys_free [simp]: "keys (free a s) = filter (\<lambda>k. k \<noteq> a) (keys s)"
  by (simp add: keys_def free_def filter_map comp_def)

lemma locale_state_free [simp]: "locale_state (free a s) = locale_state s"
  by (simp add: locale_state_def free_def setlocale_calls_def)

lemma keys_lazy [simp]: "keys (lazy_setlocale s) = keys s"
  by (simp add: keys_def)

lemma write_bytes_frame:
  "write_bytes a xs s = Some s' \<Longrightarrow> keys s' = keys s \<and> locale_state s' = locale_state s"
  by (auto simp: write_bytes_def split: option.splits block.splits if_splits)

lemma write_wides_frame:
  "write_wides a xs s = Some s' \<Longrightarrow> keys s' = keys s \<and> locale_state s' = locale_state s"
  by (auto simp: write_wides_def split: option.splits block.splits if_splits)

lemma poke_byte_frame:
  "poke_byte a i v s = Some s' \<Longrightarrow> keys s' = keys s \<and> locale_state s' = locale_state s"
  by (auto simp: poke_byte_def split: option.splits block.splits if_splits)

lemma poke_wide_frame:
  "poke_wide a i v s = Some s' \<Longrightarrow> keys s' = keys s \<and> locale_state s' = locale_state s"
  by (auto simp: poke_wide_def split: option.splits block.splits if_splits)

lemma write_cell_frame:
  "write_cell a v s = Some s' \<Longrightarrow> keys s' = keys s \<and> locale_state s' = locale_state s"
  by (auto simp: write_cell_def split: option.splits block.splits if_splits)

lemma strncpy_frame:
  "strncpy a src n s = Some s' \<Longrightarrow> keys s' = keys s \<and> locale_state s' = locale_state s"
  by (simp add: strncpy_def write_bytes_frame)

lemma mbstowcs_frame:
  "mbstowcs d str n s = Some (r, s') \<Longrightarrow> keys s' = keys s \<and> locale_state s' = locale_state s"
  by (auto simp: mbstowcs_def split: prod.splits if_splits dest: write_wides_frame)

lemma malloc_frame:
  "malloc n s = (r, s') \<Longrightarrow>
     locale_state s' = locale_state s
     \<and> (case r of None \<Rightarrow> keys s' = keys s
                 | Some a \<Rightarrow> keys s' = a # keys s \<and> a \<notin> set (keys s))"
  using fresh_notin [of "mem s"]
  by (auto simp: malloc_def alloc_def Let_def keys_def locale_state_def setlocale_calls_def
           split: if_splits)

lemma filter_keys_absent: "a \<notin> set ks \<Longrightarrow> filter (\<lambda>k. k \<noteq> a) ks = ks"
  by (induction ks) auto

lemma MultiByteToWideChar_frame:
  assumes "MultiByteToWideChar_compat cp flags src srclen dst dstlen s = Some (r, s')"
  shows "keys s' = keys s
         \<and> (if src = None \<or> dst = None \<or> sint dstlen \<le> 0 then s' = s
            else locale_state s' = locale_state (lazy_setlocale s))"
proof (cases "src = None \<or> dst = None \<or> sint dstlen \<le> 0")
  case True
  with assms show ?thesis by (auto simp: MultiByteToWideChar_compat_def)
next
  case False
  define s1 where "s1 = lazy_setlocale s"
  define srclen1 :: "32 word"
    where "srclen1 = (if srclen = - 1 then of_nat (length (c_str (the src))) else srclen)"
  obtain ra s2 where mal: "malloc (nat ((sint srclen1 + 1) mod 2 ^ 64)) s1 = (ra, s2)"
    by (cases "malloc (nat ((sint srclen1 + 1) mod 2 ^ 64)) s1") auto
  note mf = malloc_frame [OF mal]
  from assms False have nub: "sint srclen1 \<noteq> 2 ^ 31 - 1"
    by (auto simp: MultiByteToWideChar_compat_def Let_def srclen1_def split: if_splits)
  show ?thesis
  proof (cases ra)
    case None
    with assms False mal nub have "s' = s2"
      by (auto simp: MultiByteToWideChar_compat_def Let_def srclen1_def [symmetric]
            s1_def [symmetric] split: if_splits)
    with mf None False show ?thesis by (auto simp: s1_def)
  next
    case (Some a)
    with assms False mal nub
    have "\<exists>s3 s4 str res s5.
            strncpy a (the src) (nat (sint srclen1 mod 2 ^ 64)) s2 = Some s3
          \<and> poke_byte a (nat (sint srclen1)) 0 s3 = Some s4
          \<and> mbstowcs (the dst) str (nat (sint dstlen - 1)) s4 = Some (res, s5)
          \<and> (s' = free a s5 \<or> (\<exists>i. poke_wide (the dst) i 0 (free a s5) = Some s'))"
      by (auto simp: MultiByteToWideChar_compat_def Let_def srclen1_def [symmetric]
            s1_def [symmetric] split: if_splits bind_splits option.splits) blast+
    then obtain s3 s4 str res s5 where
      st: "strncpy a (the src) (nat (sint srclen1 mod 2 ^ 64)) s2 = Some s3"
          "poke_byte a (nat (sint srclen1)) 0 s3 = Some s4"
          "mbstowcs (the dst) str (nat (sint dstlen - 1)) s4 = Some (res, s5)"
      and fin: "s' = free a s5 \<or> (\<exists>i. poke_wide (the dst) i 0 (free a s5) = Some s')"
      by blast
    from mf Some have k2: "keys s2 = a # keys s" "a \<notin> set (keys s)"
      and l2: "locale_state s2 = locale_state s1"
      by (simp_all add: s1_def)
    from strncpy_frame [OF st(1)] poke_byte_frame [OF st(2)] mbstowcs_frame [OF st(3)] k2 l2
    have k5: "keys s5 = a # keys s" and l5: "locale_state s5 = locale_state s1"
      by simp_all
    have k6: "keys (free a s5) = keys s" using k5 k2(2) by (simp add: filter_keys_absent)
    have l6: "locale_state (free a s5) = locale_state s1" using l5 by simp
    from fin show ?thesis
    proof
      assume "s' = free a s5"
      with k6 l6 False show ?thesis by (auto simp: s1_def)
    next
      assume "\<exists>i. poke_wide (the dst) i 0 (free a s5) = Some s'"
      then obtain i where "poke_wide (the dst) i 0 (free a s5) = Some s'" ..
      from poke_wide_frame [OF this] k6 l6 False show ?thesis by (auto simp: s1_def)
    qed
  qed
qed

subsection \<open>The functions\<close>

lemma wchdir_compat_frame:
  "\<exists>r s'. wchdir_compat path s = Some (r, s') \<and> mem s' = mem s
          \<and> locale_state s' = locale_state s"
proof (cases path)
  case None
  then show ?thesis
    by (simp add: wchdir_compat_def locale_state_def setlocale_calls_def)
next
  case (Some p)
  then show ?thesis
    by (auto simp: wchdir_compat_closed Let_def locale_state_def setlocale_calls_def
             split: option.splits)
qed

lemma wremove_frame:
  "\<exists>r s'. wremove filename s = Some (r, s') \<and> mem s' = mem s
          \<and> locale_state s' = locale_state s"
proof (cases filename)
  case None
  then show ?thesis
    by (simp add: wremove_def locale_state_def setlocale_calls_def)
next
  case (Some p)
  then show ?thesis
    by (auto simp: wremove_closed Let_def locale_state_def setlocale_calls_def
             split: option.splits)
qed

lemma wrename_frame:
  "\<exists>r s'. wrename oldname newname s = Some (r, s') \<and> mem s' = mem s
          \<and> locale_state s' = locale_state s"
proof (cases "oldname = None \<or> newname = None")
  case True
  then show ?thesis
    by (auto simp: wrename_def locale_state_def setlocale_calls_def)
next
  case False
  then obtain p q where "oldname = Some p" "newname = Some q" by auto
  then show ?thesis
    by (auto simp: wrename_closed Let_def locale_state_def setlocale_calls_def
             split: option.splits)
qed

lemma wfopen_frame:
  "\<exists>r s'. wfopen filename mode s = Some (r, s') \<and> mem s' = mem s
          \<and> locale_state s' = locale_state s"
proof (cases "filename = None \<or> mode = None")
  case True
  then show ?thesis
    by (auto simp: wfopen_def locale_state_def setlocale_calls_def)
next
  case False
  then obtain p q where "filename = Some p" "mode = Some q" by auto
  then show ?thesis
    by (auto simp: wfopen_closed Let_def locale_state_def setlocale_calls_def
             split: option.splits sum.splits)
qed

lemma wfullpath_compat_frame:
  assumes "wfullpath_compat dst src sz s = Some (r, s')"
  shows "keys s' = keys s \<and> locale_state s' = locale_state s"
proof (cases "dst = None \<or> src = None")
  case True
  with assms show ?thesis
    by (auto simp: wfullpath_compat_def locale_state_def setlocale_calls_def keys_def)
next
  case False
  then obtain d p where "dst = Some d" "src = Some p" by auto
  with assms show ?thesis
    by (auto simp: wfullpath_compat_closed Let_def locale_state_def setlocale_calls_def keys_def
             store_keys split: option.splits sum.splits if_splits block.splits)
qed

lemma wgetcwd_compat_frame:
  assumes "wgetcwd_compat buffer sz s = Some (r, s')"
  shows "locale_state s' = locale_state s
         \<and> (keys s' = keys s
            \<or> (\<exists>b. r = Some b \<and> (buffer = None \<or> sz = 0) \<and> b \<notin> set (keys s)
                   \<and> keys s' = b # keys s))"
  using assms fresh_cons_notin [of "fresh (mem s)" _ "mem s"]
  by (auto simp: wgetcwd_compat_closed Let_def locale_state_def setlocale_calls_def keys_def
           store_keys split: option.splits sum.splits if_splits block.splits)

lemma get_pgmptr_compat_frame:
  assumes "get_pgmptr_compat ptr s = Some (r, s')"
  shows "keys s' = keys s \<and> locale_state s' = locale_state s"
  using assms
  by (auto simp: get_pgmptr_compat_def readlink_def Let_def locale_state_def setlocale_calls_def
           keys_def dest!: write_cell_frame [unfolded keys_def locale_state_def setlocale_calls_def]
           split: sum.splits if_splits bind_splits)

subsection \<open>The locale over a sequence of calls\<close>

lemma lazy_setlocale_sets: "locale_set (lazy_setlocale s)"
  by (simp add: lazy_setlocale_def)

lemma lazy_setlocale_calls:
  "setlocale_calls (lazy_setlocale s) = setlocale_calls s + (if locale_set s then 0 else 1)"
  by (simp add: lazy_setlocale_def setlocale_def setlocale_calls_def)

lemma lazy_setlocale_idle: "locale_set s \<Longrightarrow> lazy_setlocale s = s"
  by (simp add: lazy_setlocale_def)

lemma once_refl: "once s s"
  by (simp add: once_def)

lemma once_trans: "once s s' \<Longrightarrow> once s' s'' \<Longrightarrow> once s s''"
  unfolding once_def
  by (cases "locale_set s"; cases "locale_set s'"; cases "locale_set s''") simp_all

lemma once_same: "locale_state s' = locale_state s \<Longrightarrow> once s s'"
  by (simp add: once_def locale_state_def)

lemma once_lazy: "locale_state s' = locale_state (lazy_setlocale s) \<Longrightarrow> once s s'"
proof (cases "locale_set s")
  case True
  assume "locale_state s' = locale_state (lazy_setlocale s)"
  with True show ?thesis
    by (simp add: lazy_setlocale_idle once_def locale_state_def)
next
  case False
  assume "locale_state s' = locale_state (lazy_setlocale s)"
  with False show ?thesis
    using lazy_setlocale_sets [of s] lazy_setlocale_calls [of s]
    by (simp add: once_def locale_state_def)
qed

lemma perform_other:
  assumes "perform c s = Some s'"
    and "\<forall>cp flags src srclen dst dstlen. c \<noteq> MultiByteToWideChar cp flags src srclen dst dstlen"
  shows "locale_state s' = locale_state s"
proof (cases c)
  case (Wchdir path)
  with assms wchdir_compat_frame [of path s] show ?thesis by auto
next
  case (Wgetcwd buffer sz)
  with assms show ?thesis by (auto dest: wgetcwd_compat_frame)
next
  case (Get_pgmptr ptr)
  with assms show ?thesis by (auto dest: get_pgmptr_compat_frame)
next
  case (Wfullpath dst src sz)
  with assms show ?thesis by (auto dest: wfullpath_compat_frame)
next
  case (MultiByteToWideChar cp flags src srclen dst dstlen)
  with assms show ?thesis by simp
next
  case (Wfopen filename mode)
  with assms wfopen_frame [of filename mode s] show ?thesis by auto
next
  case (Wremove filename)
  with assms wremove_frame [of filename s] show ?thesis by auto
next
  case (Wrename oldname newname)
  with assms wrename_frame [of oldname newname s] show ?thesis by auto
qed

lemma perform_once: "perform c s = Some s' \<Longrightarrow> once s s'"
proof (cases "\<forall>cp flags src srclen dst dstlen. c \<noteq> MultiByteToWideChar cp flags src srclen dst dstlen")
  case True
  assume "perform c s = Some s'"
  from perform_other [OF this True] show ?thesis by (rule once_same)
next
  case False
  assume p: "perform c s = Some s'"
  from False obtain cp flags src srclen dst dstlen
    where c: "c = MultiByteToWideChar cp flags src srclen dst dstlen" by auto
  with p obtain r where "MultiByteToWideChar_compat cp flags src srclen dst dstlen s = Some (r, s')"
    by auto
  from MultiByteToWideChar_frame [OF this] show ?thesis
    by (auto simp: once_refl once_lazy split: if_splits)
qed

lemma run_once: "run cs s = Some s' \<Longrightarrow> once s s'"
proof (induction cs arbitrary: s)
  case Nil
  then show ?case by (simp add: once_refl)
next
  case (Cons c cs)
  then obtain t where t: "perform c s = Some t" "run cs t = Some s'"
    by (auto split: option.splits)
  from perform_once [OF t(1)] Cons.IH [OF t(2)] show ?case by (rule once_trans)
qed

section \<open>Calls in the example worlds\<close>

lemma mbtwc_abc_w0:
  "MultiByteToWideChar_compat 65001 0 (Some [0x61, 0x62, 0x63]) (- 1) (Some 1) 2 w0
     = Some (1, w0\<lparr>locale_set := True,
                    mem := [(1, Wides [0x61, 0, 7, 7]), (2, Cell Null)],
                    trace := [Setlocale, Malloc 4 (Some 3), Free 3]\<rparr>)"
proof -
  have 1: "0 < sint (2 :: 32 word)" by simp
  have 2: "of_nat (length (c_str [0x61, 0x62, 0x63 :: char_t])) =
           (if (- 1 :: 32 word) = - 1 then of_nat (length (c_str [0x61, 0x62, 0x63 :: char_t])) else - 1)"
    by simp
  have l: "sint (of_nat (length (c_str [0x61, 0x62, 0x63 :: char_t])) :: 32 word) = 3"
    by (simp add: c_str_abc)
  have 3: "0 \<le> sint (of_nat (length (c_str [0x61, 0x62, 0x63 :: char_t])) :: 32 word)"
    by (simp add: l)
  have 4: "sint (of_nat (length (c_str [0x61, 0x62, 0x63 :: char_t])) :: 32 word) < 2 ^ 31 - 1"
    by (simp add: l)
  have 5: "os_malloc (env w0) (trace (lazy_setlocale w0))
            (Suc (nat (sint (of_nat (length (c_str [0x61, 0x62, 0x63 :: char_t])) :: 32 word))))"
    by (simp add: w0_def os_ok_def)
  have 6: "map_of (mem w0) 1 = Some (Wides [7, 7, 7, 7])" by (simp add: w0_def)
  have 7: "nat (sint (2 :: 32 word)) \<le> length [7, 7, 7, 7 :: wchar_t]" by simp
  have 8: "wcs_of_mbs (lc_ctype (lazy_setlocale w0))
             (take (nat (sint (of_nat (length (c_str [0x61, 0x62, 0x63 :: char_t])) :: 32 word)))
                (c_str [0x61, 0x62, 0x63]))
           = Some [0x61, 0x62, 0x63]"
  proof -
    have "take (nat (sint (of_nat (length (c_str [0x61, 0x62, 0x63 :: char_t])) :: 32 word)))
                (c_str [0x61, 0x62, 0x63 :: char_t]) = [0x61, 0x62, 0x63]"
      by (simp add: l c_str_abc)
    then show ?thesis by (simp only: lc_lazy_w0 dec_abc)
  qed
  from MultiByteToWideChar_core [OF 1 2 3 4 5 6 7 8, of 65001 0]
  show ?thesis
    by (simp add: l fresh_w0 lazy_w0 numeral_2_eq_2) (simp add: w0_def)
qed

lemma wfullpath_w0:
  "wfullpath_compat (Some 1) (Some [0x64, 0xE9]) 4 w0
     = Some (Some 1, w0\<lparr>mem := [(1, Wides [0x2F, 0x64, 0xE9, 0]), (2, Cell Null)],
                         trace := [Malloc 4 (Some 3), Realpath [0x64, 0xC3, 0xA9], Free 3]\<rparr>)"
proof -
  have b: "mbs_of_wcs (lc_ctype w0) [0x64, 0xE9] = Some [0x64, 0xC3, 0xA9]"
    using enc_de by (simp add: w0_def)
  have c: "length [0x64, 0xC3, 0xA9 :: char_t] + 1 \<le> PTRDIFF_MAX"
    by (simp add: PTRDIFF_MAX_def)
  have d: "os_malloc (env w0) (trace w0) (length [0x64, 0xC3, 0xA9 :: char_t] + 1)"
    by (simp add: w0_def os_ok_def)
  have e: "os_realpath (env w0)
             (trace w0 @ [Malloc (length [0x64, 0xC3, 0xA9 :: char_t] + 1) (Some (fresh (mem w0)))])
             [0x64, 0xC3, 0xA9] = Inr [0x2F, 0x64, 0xC3, 0xA9]"
    by (simp add: w0_def os_ok_def)
  have f: "wcs_of_mbs (lc_ctype w0) (c_str [0x2F, 0x64, 0xC3, 0xA9]) = Some [0x2F, 0x64, 0xE9]"
    using dec_de by (simp add: w0_def)
  have m: "map_of (mem w0) 1 = Some (Wides [7, 7, 7, 7])" by (simp add: w0_def)
  have "wfullpath_compat (Some 1) (Some [0x64, 0xE9]) 4 w0
     = Some (Some 1,
             w0\<lparr>mem := map (\<lambda>kv. if fst kv = 1
                              then (1, Wides ([0x2F, 0x64, 0xE9] @ 0
                                     # drop (length [0x2F, 0x64, 0xE9 :: wchar_t] + 1) [7, 7, 7, 7]))
                              else kv) (mem w0),
                 trace := (trace w0 @ [Malloc (length [0x64, 0xC3, 0xA9 :: char_t] + 1)
                                        (Some (fresh (mem w0)))])
                          @ [Realpath [0x64, 0xC3, 0xA9], Free (fresh (mem w0))]\<rparr>)"
    unfolding wfullpath_compat_closed Let_def b option.case e f sum.case m block.case
    using c d by simp
  then show ?thesis
    by (simp add: fresh_w0) (simp add: w0_def)
qed

lemma wgetcwd_w0:
  "wgetcwd_compat None 0 w0
     = Some (Some 4, w0\<lparr>mem := (4, Wides [0x2F, 0x61, 0]) # mem w0,
                          trace := [Getcwd, Malloc 12 (Some 4), Free 3]\<rparr>)"
proof -
  have a: "os_getcwd (env w0) (trace w0) = Inr [0x2F, 0x61]"
    by (simp add: w0_def os_ok_def)
  have ok: "(length [0x2F, 0x61 :: wchar_t] + 1) * 4 \<le> PTRDIFF_MAX
            \<and> os_malloc (env w0) (trace w0 @ [Getcwd]) ((length [0x2F, 0x61 :: wchar_t] + 1) * 4)"
    by (simp add: w0_def os_ok_def PTRDIFF_MAX_def)
  have f2: "fresh ((3, Bytes [0x2F, 0x61, 0]) # mem w0) = 4"
    by (simp add: fresh_def w0_def)
  show ?thesis
    using a w0_cwd ok fresh_w0 f2
    by (simp add: wgetcwd_compat_closed Let_def c_str_def) (simp add: w0_def)
qed

lemma mbs_a_w0: "mbs_of_wcs (lc_ctype w0) [0x61] = Some [0x61]"
  by (simp add: w0_def utf8_encode_def)

lemma mbs_surrogate_w0: "mbs_of_wcs (lc_ctype w0) [0xD800] = None"
  by (simp add: w0_def utf8_encode_def)

lemma run_example:
  "run [MultiByteToWideChar 65001 0 (Some [0x61, 0x62, 0x63]) (- 1) (Some 1) 2, Wchdir None] w0
     = Some (w0\<lparr>errno := EINVAL, locale_set := True,
                 mem := [(1, Wides [0x61, 0, 7, 7]), (2, Cell Null)],
                 trace := [Setlocale, Malloc 4 (Some 3), Free 3]\<rparr>)"
proof -
  have a: "perform (MultiByteToWideChar 65001 0 (Some [0x61, 0x62, 0x63]) (- 1) (Some 1) 2) w0
             = Some (w0\<lparr>locale_set := True,
                    mem := [(1, Wides [0x61, 0, 7, 7]), (2, Cell Null)],
                    trace := [Setlocale, Malloc 4 (Some 3), Free 3]\<rparr>)"
    unfolding perform.simps mbtwc_abc_w0 by simp
  have b: "perform (Wchdir None) (w0\<lparr>locale_set := True,
                    mem := [(1, Wides [0x61, 0, 7, 7]), (2, Cell Null)],
                    trace := [Setlocale, Malloc 4 (Some 3), Free 3]\<rparr>)
             = Some (w0\<lparr>errno := EINVAL, locale_set := True,
                 mem := [(1, Wides [0x61, 0, 7, 7]), (2, Cell Null)],
                 trace := [Setlocale, Malloc 4 (Some 3), Free 3]\<rparr>)"
    by (simp add: wchdir_compat_def)
  show ?thesis unfolding run.simps a option.case b by simp
qed

section \<open>The claims\<close>

text \<open>
  C10. The result of \<open>MultiByteToWideChar_compat\<close>, the returned count as well as the
  world it leaves (the destination buffer included), is the same for any two calls that
  agree on \<open>src\<close>, \<open>srclen\<close>, \<open>dst\<close> and \<open>dstlen\<close>, whatever their code pages and flags.
\<close>

theorem MultiByteToWideChar_compat_ignores_cp_flags:
  "MultiByteToWideChar_compat cp flags src srclen dst dstlen s
   = MultiByteToWideChar_compat cp' flags' src srclen dst dstlen s"
  by (simp add: MultiByteToWideChar_compat_def)

text \<open>
  C1, as the code has it. A null pointer among the required arguments of
  \<open>wchdir_compat\<close>, \<open>wfullpath_compat\<close>, \<open>wfopen\<close>, \<open>wremove\<close> and \<open>wrename\<close> gives
  the failure value with \<open>errno = EINVAL\<close> and leaves everything else as it was: nothing
  is read, allocated or asked of the system. \<open>MultiByteToWideChar_compat\<close> returns 0
  on a null \<open>src\<close> or \<open>dst\<close> and leaves the world, \<open>errno\<close> included, unchanged.
\<close>

theorem null_argument_sentinel:
  "wchdir_compat None s = Some (- 1, s\<lparr>errno := EINVAL\<rparr>)
   \<and> (dst = None \<or> src = None \<longrightarrow>
        wfullpath_compat dst src sz s = Some (None, s\<lparr>errno := EINVAL\<rparr>))
   \<and> (filename = None \<or> mode = None \<longrightarrow>
        wfopen filename mode s = Some (None, s\<lparr>errno := EINVAL\<rparr>))
   \<and> wremove None s = Some (- 1, s\<lparr>errno := EINVAL\<rparr>)
   \<and> (oldname = None \<or> newname = None \<longrightarrow>
        wrename oldname newname s = Some (- 1, s\<lparr>errno := EINVAL\<rparr>))
   \<and> (msrc = None \<or> mdst = None \<longrightarrow>
        MultiByteToWideChar_compat cp flags msrc srclen mdst dstlen s = Some (0, s))"
  by (simp add: wchdir_compat_def wfullpath_compat_def wfopen_def wremove_def wrename_def
        MultiByteToWideChar_compat_def)

theorem null_argument_sentinel_witness:
  "wfullpath_compat None (Some [0x61]) 4 w0 = Some (None, w0\<lparr>errno := EINVAL\<rparr>)
   \<and> wfopen (Some [0x61]) None w0 = Some (None, w0\<lparr>errno := EINVAL\<rparr>)
   \<and> wrename None (Some [0x61]) w0 = Some (- 1, w0\<lparr>errno := EINVAL\<rparr>)
   \<and> MultiByteToWideChar_compat 65001 0 (Some [0x61]) (- 1) None 4 w0 = Some (0, w0)"
  using null_argument_sentinel [where dst = None and src = "Some [0x61]" and sz = 4 and s = w0
      and filename = "Some [0x61]" and mode = None and oldname = None and newname = "Some [0x61]"
      and msrc = "Some [0x61]" and mdst = None and cp = 65001 and flags = 0 and srclen = "- 1"
      and dstlen = 4]
  by simp

text \<open>
  C1 as stated fails for \<open>MultiByteToWideChar_compat\<close>: with a null \<open>src\<close> it returns 0
  and \<open>errno\<close> keeps its value, here 0, which is not \<open>EINVAL\<close>.
\<close>

theorem null_argument_counterexample:
  "MultiByteToWideChar_compat 65001 0 None (- 1) (Some 1) 4 w0 = Some (0, w0)
   \<and> errno w0 \<noteq> EINVAL"
  by (simp add: MultiByteToWideChar_compat_def w0_def EINVAL_def)

text \<open>
  C9. When \<^verbatim>\<open>readlink\<close> on \<^verbatim>\<open>/proc/self/exe\<close> fails, \<open>get_pgmptr_compat\<close> returns \<open>-1\<close>
  and changes only \<open>errno\<close> (set by \<^verbatim>\<open>readlink\<close>) and the record of system calls: the
  memory, and with it the variable \<open>*ptr\<close>, is as before, also when \<open>ptr\<close> is null.
  Whenever a call changes the memory, it has returned 0 after a successful \<^verbatim>\<open>readlink\<close>.
\<close>

theorem get_pgmptr_failure_frame:
  "(os_readlink (env s) (trace s) = Inl e \<longrightarrow>
      get_pgmptr_compat ptr s = Some (- 1, s\<lparr>errno := e, trace := trace s @ [Readlink]\<rparr>))
   \<and> (get_pgmptr_compat ptr s = Some (r, s') \<and> mem s' \<noteq> mem s \<longrightarrow>
        r = 0 \<and> (\<exists>p. os_readlink (env s) (trace s) = Inr p))"
  by (auto simp: get_pgmptr_compat_def readlink_def Let_def
           split: sum.splits if_splits bind_splits)

theorem get_pgmptr_failure_frame_witness:
  "get_pgmptr_compat (Some 2) w_noexe = Some (- 1, w_noexe\<lparr>errno := 2, trace := [Readlink]\<rparr>)
   \<and> map_of (mem (w_noexe\<lparr>errno := 2, trace := [Readlink]\<rparr>)) 2 = Some (Cell Null)
   \<and> get_pgmptr_compat (Some 2) w0
       = Some (0, w0\<lparr>program_path := [0x2F, 0x78, 0, 0, 0, 0, 0, 0],
                     mem := [(1, Wides [7, 7, 7, 7]), (2, Cell Program_path)],
                     trace := [Readlink]\<rparr>)
   \<and> (\<exists>p. os_readlink (env w0) (trace w0) = Inr p)"
proof -
  have 1: "os_readlink (env w_noexe) (trace w_noexe) = Inl 2"
    by (simp add: w_noexe_def w0_def)
  have 2: "get_pgmptr_compat (Some 2) w0
           = Some (0, w0\<lparr>program_path := [0x2F, 0x78, 0, 0, 0, 0, 0, 0],
                         mem := [(1, Wides [7, 7, 7, 7]), (2, Cell Program_path)],
                         trace := [Readlink]\<rparr>)"
    by (simp add: get_pgmptr_compat_def readlink_def w0_def os_ok_def PATH_MAX_def write_cell_def
          store_def Let_def)
  have 3: "mem (w0\<lparr>program_path := [0x2F, 0x78, 0, 0, 0, 0, 0, 0],
                   mem := [(1, Wides [7, 7, 7, 7]), (2, Cell Program_path)],
                   trace := [Readlink]\<rparr>) \<noteq> mem w0"
    by (simp add: w0_def)
  from get_pgmptr_failure_frame [of w_noexe 2 "Some 2"] 1
  have "get_pgmptr_compat (Some 2) w_noexe = Some (- 1, w_noexe\<lparr>errno := 2, trace := [Readlink]\<rparr>)"
    by (simp add: w_noexe_def w0_def)
  moreover have "map_of (mem (w_noexe\<lparr>errno := 2, trace := [Readlink]\<rparr>)) 2 = Some (Cell Null)"
    by (simp add: w_noexe_def w0_def)
  moreover from get_pgmptr_failure_frame [where s = w0 and ptr = "Some 2" and r = 0] 2 3
  have "\<exists>p. os_readlink (env w0) (trace w0) = Inr p"
    by blast
  ultimately show ?thesis using 2 by blast
qed

text \<open>
  C2. A caller-supplied buffer is a non-null buffer with a capacity other than zero (a
  zero capacity makes \<open>wgetcwd_compat\<close> allocate and is an invalid argument of
  \<open>wfullpath_compat\<close>). When its capacity \<open>sz\<close> is too small for the wide result and its
  terminator, \<open>wgetcwd_compat\<close> and \<open>wfullpath_compat\<close> return null with
  \<open>errno = ERANGE\<close>, and the memory, the buffer included, is exactly as before the call.
\<close>

theorem undersized_buffer_ERANGE:
  "(sz \<noteq> 0 \<and> os_getcwd (env s) (trace s) = Inr p
      \<and> wcs_of_mbs (lc_ctype s) (c_str p) = Some ws \<and> sz < length ws + 1
    \<longrightarrow> (\<exists>s'. wgetcwd_compat (Some b) sz s = Some (None, s')
              \<and> errno s' = ERANGE \<and> mem s' = mem s))
   \<and> (sz \<noteq> 0 \<and> mbs_of_wcs (lc_ctype s) src = Some enc
      \<and> length enc + 1 \<le> PTRDIFF_MAX \<and> os_malloc (env s) (trace s) (length enc + 1)
      \<and> os_realpath (env s) (trace s @ [Malloc (length enc + 1) (Some (fresh (mem s)))]) enc
          = Inr r
      \<and> wcs_of_mbs (lc_ctype s) (c_str r) = Some ws' \<and> sz < length ws' + 1
    \<longrightarrow> (\<exists>s'. wfullpath_compat (Some d) (Some src) sz s = Some (None, s')
              \<and> errno s' = ERANGE \<and> mem s' = mem s))"
  by (simp add: wgetcwd_compat_closed wfullpath_compat_closed Let_def)

theorem undersized_buffer_ERANGE_witness:
  "(\<exists>s'. wgetcwd_compat (Some 1) 2 w0 = Some (None, s')
         \<and> errno s' = ERANGE \<and> mem s' = mem w0)
   \<and> (\<exists>s'. wfullpath_compat (Some 1) (Some [0x64, 0xE9]) 3 w0 = Some (None, s')
         \<and> errno s' = ERANGE \<and> mem s' = mem w0)"
proof -
  have a: "os_getcwd (env w0) (trace w0) = Inr [0x2F, 0x61]"
    by (simp add: w0_def os_ok_def)
  have b: "mbs_of_wcs (lc_ctype w0) [0x64, 0xE9] = Some [0x64, 0xC3, 0xA9]"
    using enc_de by (simp add: w0_def)
  have c: "length [0x64, 0xC3, 0xA9 :: char_t] + 1 \<le> PTRDIFF_MAX"
    by (simp add: PTRDIFF_MAX_def)
  have d: "os_malloc (env w0) (trace w0) (length [0x64, 0xC3, 0xA9 :: char_t] + 1)"
    by (simp add: w0_def os_ok_def)
  have e: "os_realpath (env w0)
             (trace w0 @ [Malloc (length [0x64, 0xC3, 0xA9 :: char_t] + 1) (Some (fresh (mem w0)))])
             [0x64, 0xC3, 0xA9] = Inr [0x2F, 0x64, 0xC3, 0xA9]"
    by (simp add: w0_def os_ok_def)
  have f: "wcs_of_mbs (lc_ctype w0) (c_str [0x2F, 0x64, 0xC3, 0xA9]) = Some [0x2F, 0x64, 0xE9]"
    using dec_de by (simp add: w0_def)
  show ?thesis
    using undersized_buffer_ERANGE [where sz = 2 and s = w0 and p = "[0x2F, 0x61]"
            and ws = "[0x2F, 0x61]" and b = 1, THEN conjunct1] w0_cwd a
          undersized_buffer_ERANGE [where sz = 3 and s = w0 and src = "[0x64, 0xE9]"
            and enc = "[0x64, 0xC3, 0xA9]" and r = "[0x2F, 0x64, 0xC3, 0xA9]"
            and ws' = "[0x2F, 0x64, 0xE9]" and d = 1, THEN conjunct2] b c d e f
    by simp
qed



text \<open>
  C6. With a null buffer or a zero capacity, a call of \<open>wgetcwd_compat\<close> that returns
  a pointer returns a block that did not exist before, of exactly \<open>length + 1\<close> wide
  characters (a request of \<open>(length + 1) * sizeof(wchar_t)\<close> bytes), holding the current
  directory converted to wide characters and a terminator. The block is still
  allocated when the call returns, and it is the only change of the memory: the byte
  string obtained from \<^verbatim>\<open>getcwd\<close> has been freed. The call does return such a block whenever
  \<^verbatim>\<open>getcwd\<close> succeeds, its result converts and the allocation is granted.
\<close>

theorem wgetcwd_auto_allocation:
  assumes "buffer = None \<or> sz = 0"
  shows "(wgetcwd_compat buffer sz s = Some (Some b, s') \<longrightarrow>
            (\<exists>p ws. os_getcwd (env s) (trace s) = Inr p
               \<and> wcs_of_mbs (lc_ctype s) (c_str p) = Some ws
               \<and> b \<notin> fst ` set (mem s)
               \<and> mem s' = (b, Wides (ws @ [0])) # mem s
               \<and> trace s' = trace s @ [Getcwd, Malloc ((length ws + 1) * 4) (Some b),
                                         Free (fresh (mem s))]))
       \<and> (os_getcwd (env s) (trace s) = Inr p
            \<and> wcs_of_mbs (lc_ctype s) (c_str p) = Some ws
            \<and> (length ws + 1) * 4 \<le> PTRDIFF_MAX
            \<and> os_malloc (env s) (trace s @ [Getcwd]) ((length ws + 1) * 4)
          \<longrightarrow> (\<exists>b s'. wgetcwd_compat buffer sz s = Some (Some b, s')))"
  using assms fresh_cons_notin [of "fresh (mem s)" _ "mem s"]
  by (auto simp: wgetcwd_compat_closed Let_def split: sum.splits option.splits if_splits)

theorem wgetcwd_auto_allocation_witness:
  "wgetcwd_compat None 0 w0
     = Some (Some 4, w0\<lparr>mem := (4, Wides [0x2F, 0x61, 0]) # mem w0,
                          trace := [Getcwd, Malloc 12 (Some 4), Free 3]\<rparr>)
   \<and> (\<exists>p ws. os_getcwd (env w0) (trace w0) = Inr p
               \<and> wcs_of_mbs (lc_ctype w0) (c_str p) = Some ws
               \<and> 4 \<notin> fst ` set (mem w0)
               \<and> mem (w0\<lparr>mem := (4, Wides [0x2F, 0x61, 0]) # mem w0,
                          trace := [Getcwd, Malloc 12 (Some 4), Free 3]\<rparr>)
                   = (4, Wides (ws @ [0])) # mem w0)"
proof -
  have a: "os_getcwd (env w0) (trace w0) = Inr [0x2F, 0x61]"
    by (simp add: w0_def os_ok_def)
  have ok: "(length [0x2F, 0x61 :: wchar_t] + 1) * 4 \<le> PTRDIFF_MAX
            \<and> os_malloc (env w0) (trace w0 @ [Getcwd]) ((length [0x2F, 0x61 :: wchar_t] + 1) * 4)"
    by (simp add: w0_def os_ok_def PTRDIFF_MAX_def)
  have f2: "fresh ((3, Bytes [0x2F, 0x61, 0]) # mem w0) = 4"
    by (simp add: fresh_def w0_def)
  have r: "wgetcwd_compat None 0 w0
     = Some (Some 4, w0\<lparr>mem := (4, Wides [0x2F, 0x61, 0]) # mem w0,
                          trace := [Getcwd, Malloc 12 (Some 4), Free 3]\<rparr>)"
    using a w0_cwd ok fresh_w0 f2
    by (simp add: wgetcwd_compat_closed Let_def c_str_def) (simp add: w0_def)
  from wgetcwd_auto_allocation [where buffer = None and sz = 0 and s = w0 and b = 4
         and s' = "w0\<lparr>mem := (4, Wides [0x2F, 0x61, 0]) # mem w0,
                          trace := [Getcwd, Malloc 12 (Some 4), Free 3]\<rparr>", THEN conjunct1] r
  show ?thesis by auto
qed

text \<open>
  C3, as the code has it. When the source string converts to more wide characters than
  the destination can hold with the terminator, \<open>MultiByteToWideChar_compat\<close> returns,
  and never with \<^verbatim>\<open>ERANGE\<close> of its own. If the allocation of its copy of the source
  succeeds, it stores the first \<open>dstlen - 1\<close> wide characters and a terminator at
  \<open>dst[dstlen - 1]\<close> and returns \<open>dstlen - 1\<close>; \<open>errno\<close> is then what the setting up of
  the locale left there: the value at the call when the locale had been set up before
  or \<^verbatim>\<open>setlocale\<close> leaves \<open>errno\<close> alone, the error number of \<^verbatim>\<open>setlocale\<close> otherwise. If the
  allocation fails, it returns 0 with the memory as it was and \<open>errno\<close> set to \<^verbatim>\<open>ENOMEM\<close>
  by \<^verbatim>\<open>malloc\<close>. (The source string is the string at \<open>src\<close>, cut after \<open>srclen\<close> chars
  unless \<open>srclen\<close> is \<open>-1\<close>; the destination has at least \<open>dstlen\<close> elements.)
\<close>

theorem MultiByteToWideChar_truncates:
  fixes dstlen srclen :: "32 word"
  assumes dl: "0 < sint dstlen"
    and n: "n = (if srclen = - 1 then length (c_str sp) else nat (sint srclen))"
           "srclen = - 1 \<or> 0 \<le> sint srclen" "n < 2 ^ 31 - 1"
    and old: "map_of (mem s) d = Some (Wides old)" "nat (sint dstlen) \<le> length old"
    and ws: "wcs_of_mbs (lc_ctype (lazy_setlocale s)) (take n (c_str sp)) = Some ws"
    and big: "nat (sint dstlen) < length ws + 1"
  shows "\<exists>r s'. MultiByteToWideChar_compat cp flags (Some sp) srclen (Some d) dstlen s = Some (r, s')
           \<and> (if os_malloc (env s) (trace (lazy_setlocale s)) (n + 1)
              then r = sint dstlen - 1
                 \<and> map_of (mem s') d
                     = Some (Wides (take (nat (sint dstlen) - 1) ws @ 0 # drop (nat (sint dstlen)) old))
                 \<and> errno s'
                     = (if locale_set s then errno s
                        else case snd (os_setlocale (env s) (trace s)) of
                               None \<Rightarrow> errno s | Some e \<Rightarrow> e)
              else r = 0 \<and> mem s' = mem s \<and> errno s' = ENOMEM)"
proof -
  define srclen1 :: "32 word"
    where "srclen1 = (if srclen = - 1 then of_nat (length (c_str sp)) else srclen)"
  have s1: "sint srclen1 = int n"
  proof (cases "srclen = - 1")
    case True
    with n have "n = length (c_str sp)" "n < 2 ^ 31" by simp_all
    with True show ?thesis by (simp add: srclen1_def sint_of_nat_small)
  next
    case False
    with n show ?thesis by (simp add: srclen1_def)
  qed
  have nn: "nat (sint srclen1) = n" by (simp add: s1)
  have din: "d \<in> fst ` set (mem s)" using old(1) by (rule map_of_in_keys)
  define N where "N = nat (sint dstlen) - 1"
  have m: "min (length ws) N = N"
    using big by (simp add: N_def)
  have r: "int N = sint dstlen - 1"
    using dl by (simp add: N_def)
  have S: "Suc N = nat (sint dstlen)"
    using dl by (simp add: N_def)
  have c1: "0 \<le> sint srclen1" by (simp add: s1)
  have c2: "sint srclen1 < 2 ^ 31 - 1" using n(3) by (simp add: s1)
  have ws': "wcs_of_mbs (lc_ctype (lazy_setlocale s)) (take (nat (sint srclen1)) (c_str sp)) = Some ws"
    using ws by (simp add: nn)
  show ?thesis
  proof (cases "os_malloc (env s) (trace (lazy_setlocale s)) (n + 1)")
    case True
    then have ok': "os_malloc (env s) (trace (lazy_setlocale s)) (Suc (nat (sint srclen1)))"
      by (simp add: nn)
    note core = MultiByteToWideChar_core [OF dl srclen1_def c1 c2 ok' old ws', of cp flags]
    from core [folded N_def] True show ?thesis
      unfolding N_def [symmetric] using din
      by (simp add: m r S map_of_store lazy_setlocale_errno)
  next
    case False
    then have no: "\<not> os_malloc (env s) (trace (lazy_setlocale s)) (Suc (nat (sint srclen1)))"
      by (simp add: nn)
    from MultiByteToWideChar_nomem [OF dl srclen1_def c1 c2 no, of cp flags d] False
    show ?thesis by simp
  qed
qed

theorem MultiByteToWideChar_truncates_witness:
  "(\<exists>s'. MultiByteToWideChar_compat 65001 0 (Some [0x61, 0x62, 0x63]) (- 1) (Some 1) 2 w0
            = Some (1, s')
          \<and> map_of (mem s') 1 = Some (Wides [0x61, 0, 7, 7]) \<and> errno s' = errno w0)
   \<and> (\<exists>s'. MultiByteToWideChar_compat 65001 0 (Some [0x61, 0x62, 0x63]) (- 1) (Some 1) 2 w_nomem
            = Some (0, s')
          \<and> mem s' = mem w_nomem \<and> errno s' = ENOMEM)
   \<and> (\<exists>s'. MultiByteToWideChar_compat 65001 0 (Some [0x61, 0x62, 0x63]) (- 1) (Some 1) 2 w_enoent
            = Some (1, s')
          \<and> map_of (mem s') 1 = Some (Wides [0x61, 0, 7, 7])
          \<and> errno w_enoent = 0 \<and> errno s' = 2)"
proof -
  have 1: "0 < sint (2 :: 32 word)" by simp
  have 2: "(3::nat) = (if (- 1 :: 32 word) = - 1 then length (c_str [0x61, 0x62, 0x63 :: char_t])
                       else nat (sint (- 1 :: 32 word)))"
    by (simp add: c_str_abc)
  have 3: "(- 1 :: 32 word) = - 1 \<or> 0 \<le> sint (- 1 :: 32 word)" by simp
  have 4: "(3::nat) < 2 ^ 31 - 1" by simp
  have 7: "nat (sint (2 :: 32 word)) \<le> length [7, 7, 7, 7 :: wchar_t]" by simp
  have t: "take 3 (c_str [0x61, 0x62, 0x63 :: char_t]) = [0x61, 0x62, 0x63]"
    by (simp add: c_str_abc)
  have 9: "nat (sint (2 :: 32 word)) < length [0x61, 0x62, 0x63 :: wchar_t] + 1" by simp
  have a6: "map_of (mem w0) 1 = Some (Wides [7, 7, 7, 7])" by (simp add: w0_def)
  have a8: "wcs_of_mbs (lc_ctype (lazy_setlocale w0)) (take 3 (c_str [0x61, 0x62, 0x63]))
            = Some [0x61, 0x62, 0x63]"
    using t by (simp only: lc_lazy_w0 dec_abc)
  have a5: "os_malloc (env w0) (trace (lazy_setlocale w0)) (3 + 1)"
           "\<not> locale_set w0" "snd (os_setlocale (env w0) (trace w0)) = None"
    by (simp_all add: w0_def os_ok_def)
  have b6: "map_of (mem w_nomem) 1 = Some (Wides [7, 7, 7, 7])" by (simp add: w_nomem_def w0_def)
  have b8: "wcs_of_mbs (lc_ctype (lazy_setlocale w_nomem)) (take 3 (c_str [0x61, 0x62, 0x63]))
            = Some [0x61, 0x62, 0x63]"
    using t by (simp only: lc_lazy_w_nomem dec_abc)
  have b5: "\<not> os_malloc (env w_nomem) (trace (lazy_setlocale w_nomem)) (3 + 1)"
    by (simp add: w_nomem_def w0_def os_ok_def)
  have c6: "map_of (mem w_enoent) 1 = Some (Wides [7, 7, 7, 7])" by (simp add: w_enoent_def w0_def)
  have c8: "wcs_of_mbs (lc_ctype (lazy_setlocale w_enoent)) (take 3 (c_str [0x61, 0x62, 0x63]))
            = Some [0x61, 0x62, 0x63]"
    using t by (simp only: lc_lazy_w_enoent dec_abc)
  have c5: "os_malloc (env w_enoent) (trace (lazy_setlocale w_enoent)) (3 + 1)"
           "\<not> locale_set w_enoent" "snd (os_setlocale (env w_enoent) (trace w_enoent)) = Some 2"
           "errno w_enoent = 0"
    by (simp_all add: w_enoent_def w0_def os_ok_def)
  from MultiByteToWideChar_truncates [OF 1 2 3 4 a6 7 a8 9, of 65001 0] a5
  have A: "\<exists>s'. MultiByteToWideChar_compat 65001 0 (Some [0x61, 0x62, 0x63]) (- 1) (Some 1) 2 w0
            = Some (1, s')
          \<and> map_of (mem s') 1 = Some (Wides [0x61, 0, 7, 7]) \<and> errno s' = errno w0"
    by (simp add: numeral_2_eq_2)
  from MultiByteToWideChar_truncates [OF 1 2 3 4 b6 7 b8 9, of 65001 0] b5
  have B: "\<exists>s'. MultiByteToWideChar_compat 65001 0 (Some [0x61, 0x62, 0x63]) (- 1) (Some 1) 2 w_nomem
            = Some (0, s')
          \<and> mem s' = mem w_nomem \<and> errno s' = ENOMEM"
    by simp
  from MultiByteToWideChar_truncates [OF 1 2 3 4 c6 7 c8 9, of 65001 0] c5
  have C: "\<exists>s'. MultiByteToWideChar_compat 65001 0 (Some [0x61, 0x62, 0x63]) (- 1) (Some 1) 2 w_enoent
            = Some (1, s')
          \<and> map_of (mem s') 1 = Some (Wides [0x61, 0, 7, 7])
          \<and> errno w_enoent = 0 \<and> errno s' = 2"
    by (simp add: numeral_2_eq_2)
  from A B C show ?thesis by blast
qed

text \<open>
  C3 as stated fails: the string \<open>abc\<close> needs four wide characters with its terminator,
  the destination has room for two, and the call returns 1, not 0, with \<open>errno\<close> 0, not
  \<^verbatim>\<open>ERANGE\<close>, and with \<open>a\<close> and a terminator stored over the first two elements of the
  destination.
\<close>

theorem MultiByteToWideChar_truncates_counterexample:
  "MultiByteToWideChar_compat 65001 0 (Some [0x61, 0x62, 0x63]) (- 1) (Some 1) 2 w0
     = Some (1, w0\<lparr>locale_set := True,
                    mem := [(1, Wides [0x61, 0, 7, 7]), (2, Cell Null)],
                    trace := [Setlocale, Malloc 4 (Some 3), Free 3]\<rparr>)
   \<and> wcs_of_mbs UTF8_locale [0x61, 0x62, 0x63] = Some [0x61, 0x62, 0x63]
   \<and> errno w0 \<noteq> ERANGE
   \<and> map_of (mem w0) 1 = Some (Wides [7, 7, 7, 7])"
proof -
  have 1: "0 < sint (2 :: 32 word)" by simp
  have 2: "of_nat (length (c_str [0x61, 0x62, 0x63 :: char_t])) =
           (if (- 1 :: 32 word) = - 1 then of_nat (length (c_str [0x61, 0x62, 0x63 :: char_t])) else - 1)"
    by simp
  have l: "sint (of_nat (length (c_str [0x61, 0x62, 0x63 :: char_t])) :: 32 word) = 3"
    by (simp add: c_str_abc)
  have 3: "0 \<le> sint (of_nat (length (c_str [0x61, 0x62, 0x63 :: char_t])) :: 32 word)"
    by (simp add: l)
  have 4: "sint (of_nat (length (c_str [0x61, 0x62, 0x63 :: char_t])) :: 32 word) < 2 ^ 31 - 1"
    by (simp add: l)
  have 5: "os_malloc (env w0) (trace (lazy_setlocale w0))
            (Suc (nat (sint (of_nat (length (c_str [0x61, 0x62, 0x63 :: char_t])) :: 32 word))))"
    by (simp add: w0_def os_ok_def)
  have 6: "map_of (mem w0) 1 = Some (Wides [7, 7, 7, 7])" by (simp add: w0_def)
  have 7: "nat (sint (2 :: 32 word)) \<le> length [7, 7, 7, 7 :: wchar_t]" by simp
  have 8: "wcs_of_mbs (lc_ctype (lazy_setlocale w0))
             (take (nat (sint (of_nat (length (c_str [0x61, 0x62, 0x63 :: char_t])) :: 32 word)))
                (c_str [0x61, 0x62, 0x63]))
           = Some [0x61, 0x62, 0x63]"
  proof -
    have "take (nat (sint (of_nat (length (c_str [0x61, 0x62, 0x63 :: char_t])) :: 32 word)))
                (c_str [0x61, 0x62, 0x63 :: char_t]) = [0x61, 0x62, 0x63]"
      by (simp add: l c_str_abc)
    then show ?thesis by (simp only: lc_lazy_w0 dec_abc)
  qed
  have f: "fresh (mem w0) = 3" by (simp add: fresh_def w0_def)
  from MultiByteToWideChar_core [OF 1 2 3 4 5 6 7 8, of 65001 0]
  have "MultiByteToWideChar_compat 65001 0 (Some [0x61, 0x62, 0x63]) (- 1) (Some 1) 2 w0
     = Some (1, w0\<lparr>locale_set := True,
                    mem := [(1, Wides [0x61, 0, 7, 7]), (2, Cell Null)],
                    trace := [Setlocale, Malloc 4 (Some 3), Free 3]\<rparr>)"
    by (simp add: l f lazy_w0 numeral_2_eq_2) (simp add: w0_def)
  then show ?thesis
    using dec_abc by (simp add: w0_def ERANGE_def)
qed

text \<open>
  C4. In a UTF-8 locale, a wide string \<open>W\<close> of Unicode scalar values without NUL has a
  byte string \<open>enc\<close> as its conversion, and \<open>enc\<close> converts back to \<open>W\<close>. The operations
  realise the two directions: \<open>wchdir_compat\<close> hands exactly \<open>enc\<close> to \<^verbatim>\<open>chdir\<close>; when
  \<^verbatim>\<open>getcwd\<close> answers \<open>enc\<close>, \<open>wgetcwd_compat\<close> returns a buffer holding \<open>W\<close> and a
  terminator; and \<open>MultiByteToWideChar_compat\<close> on \<open>enc\<close>, with room for \<open>W\<close> and a
  terminator, stores \<open>W\<close> and a terminator and returns the length of \<open>W\<close>. (The
  allocations are granted, and the destination has \<open>dstlen\<close> elements.) In any locale
  of the model, a conversion of \<open>W\<close> that succeeds converts back to \<open>W\<close>.
\<close>

theorem wide_multibyte_roundtrip:
  assumes W: "0 \<notin> set W" "\<forall>c\<in>set W. representable c"
  shows "\<exists>enc. mbs_of_wcs UTF8_locale W = Some enc \<and> wcs_of_mbs UTF8_locale enc = Some W
     \<and> (\<forall>s. lc_ctype s = UTF8_locale \<and> length enc + 1 \<le> PTRDIFF_MAX
             \<and> os_malloc (env s) (trace s) (length enc + 1) \<longrightarrow>
           (\<exists>r s'. wchdir_compat (Some W) s = Some (r, s') \<and> Chdir enc \<in> set (trace s')))
     \<and> (\<forall>t. lc_ctype t = UTF8_locale \<and> os_getcwd (env t) (trace t) = Inr enc
             \<and> (length W + 1) * 4 \<le> PTRDIFF_MAX
             \<and> os_malloc (env t) (trace t @ [Getcwd]) ((length W + 1) * 4) \<longrightarrow>
           (\<exists>b t'. wgetcwd_compat None 0 t = Some (Some b, t')
                  \<and> map_of (mem t') b = Some (Wides (W @ [0]))))
     \<and> (\<forall>t d old dstlen cp flags.
           lc_ctype (lazy_setlocale t) = UTF8_locale \<and> length enc < 2 ^ 31 - 1
             \<and> os_malloc (env t) (trace (lazy_setlocale t)) (length enc + 1)
             \<and> map_of (mem t) d = Some (Wides old) \<and> nat (sint dstlen) \<le> length old
             \<and> length W < nat (sint dstlen) \<longrightarrow>
           (\<exists>t'. MultiByteToWideChar_compat cp flags (Some enc) (- 1) (Some d) dstlen t
                   = Some (int (length W), t')
                \<and> map_of (mem t') d = Some (Wides (W @ 0 # drop (length W + 1) old))))
     \<and> (\<forall>L bs. mbs_of_wcs L W = Some bs \<longrightarrow> wcs_of_mbs L bs = Some W)"
proof -
  from mbs_of_wcs_total [OF W(2)] obtain enc where enc: "mbs_of_wcs UTF8_locale W = Some enc"
    by blast
  have cW: "c_str W = W" using W(1) by (rule c_str_clean)
  have nz: "0 \<notin> set enc" using enc by (rule mbs_of_wcs_nonzero)
  have cE: "c_str enc = enc" using nz by (rule c_str_clean)
  have dec: "wcs_of_mbs UTF8_locale enc = Some W"
    using wcs_roundtrip [OF enc] by (simp add: cW)
  have p1: "\<exists>r s'. wchdir_compat (Some W) s = Some (r, s') \<and> Chdir enc \<in> set (trace s')"
    if "lc_ctype s = UTF8_locale \<and> length enc + 1 \<le> PTRDIFF_MAX
             \<and> os_malloc (env s) (trace s) (length enc + 1)" for s
    using that enc by (auto simp: wchdir_compat_closed Let_def split: option.splits)
  have p2: "\<exists>b t'. wgetcwd_compat None 0 t = Some (Some b, t')
                  \<and> map_of (mem t') b = Some (Wides (W @ [0]))"
    if "lc_ctype t = UTF8_locale \<and> os_getcwd (env t) (trace t) = Inr enc
             \<and> (length W + 1) * 4 \<le> PTRDIFF_MAX
             \<and> os_malloc (env t) (trace t @ [Getcwd]) ((length W + 1) * 4)" for t
    using that dec by (simp add: wgetcwd_compat_closed Let_def cE)
  have p3: "\<exists>t'. MultiByteToWideChar_compat cp flags (Some enc) (- 1) (Some d) dstlen t
                   = Some (int (length W), t')
                \<and> map_of (mem t') d = Some (Wides (W @ 0 # drop (length W + 1) old))"
    if h: "lc_ctype (lazy_setlocale t) = UTF8_locale \<and> length enc < 2 ^ 31 - 1
             \<and> os_malloc (env t) (trace (lazy_setlocale t)) (length enc + 1)
             \<and> map_of (mem t) d = Some (Wides old) \<and> nat (sint dstlen) \<le> length old
             \<and> length W < nat (sint dstlen)" for t d old and dstlen :: "32 word" and cp flags
  proof -
    define srclen1 :: "32 word" where "srclen1 = of_nat (length enc)"
    have l: "sint srclen1 = int (length enc)"
      using h by (simp add: srclen1_def sint_of_nat_small)
    have 1: "0 < sint dstlen" using h by linarith
    have 2: "srclen1 = (if (- 1 :: 32 word) = - 1 then of_nat (length (c_str enc)) else - 1)"
      by (simp add: srclen1_def cE)
    have 3: "0 \<le> sint srclen1" by (simp add: l)
    have 4: "sint srclen1 < 2 ^ 31 - 1" using h by (simp add: l)
    have 5: "os_malloc (env t) (trace (lazy_setlocale t)) (Suc (nat (sint srclen1)))"
      using h by (simp add: l)
    have 6: "map_of (mem t) d = Some (Wides old)" using h by simp
    have 7: "nat (sint dstlen) \<le> length old" using h by simp
    have 8: "wcs_of_mbs (lc_ctype (lazy_setlocale t)) (take (nat (sint srclen1)) (c_str enc)) = Some W"
      using h dec by (simp add: l cE)
    have din: "d \<in> fst ` set (mem t)" using 6 by (rule map_of_in_keys)
    define N where "N = nat (sint dstlen) - 1"
    have "length W < nat (sint dstlen)" using h by simp
    then have m: "min (length W) N = length W" unfolding N_def by linarith
    note core = MultiByteToWideChar_core [OF 1 2 3 4 5 6 7 8, of cp flags, folded N_def]
    show ?thesis
      using core din by (simp add: m map_of_store)
  qed
  have p4: "wcs_of_mbs L bs = Some W" if "mbs_of_wcs L W = Some bs" for L bs
    using wcs_roundtrip [OF that] by (simp add: cW)
  from enc dec p1 p2 p3 p4 show ?thesis by blast
qed

theorem wide_multibyte_roundtrip_witness:
  "(\<exists>r s'. wchdir_compat (Some [0x64, 0xE9]) w0 = Some (r, s')
          \<and> Chdir [0x64, 0xC3, 0xA9] \<in> set (trace s'))
   \<and> (\<exists>b t'. wgetcwd_compat None 0 w_de = Some (Some b, t')
          \<and> map_of (mem t') b = Some (Wides [0x64, 0xE9, 0]))
   \<and> (\<exists>t'. MultiByteToWideChar_compat 65001 0 (Some [0x64, 0xC3, 0xA9]) (- 1) (Some 1) 4 w0
              = Some (2, t')
          \<and> map_of (mem t') 1 = Some (Wides [0x64, 0xE9, 0, 7]))"
proof -
  have W1: "0 \<notin> set [0x64, 0xE9 :: wchar_t]" by simp
  have W2: "\<forall>c\<in>set [0x64, 0xE9 :: wchar_t]. representable c"
    by (simp add: representable_def)
  from wide_multibyte_roundtrip [OF W1 W2] obtain enc where
    e: "mbs_of_wcs UTF8_locale [0x64, 0xE9] = Some enc"
    and p1: "\<And>s. lc_ctype s = UTF8_locale \<and> length enc + 1 \<le> PTRDIFF_MAX
             \<and> os_malloc (env s) (trace s) (length enc + 1) \<Longrightarrow>
           (\<exists>r s'. wchdir_compat (Some [0x64, 0xE9]) s = Some (r, s') \<and> Chdir enc \<in> set (trace s'))"
    and p2: "\<And>t. lc_ctype t = UTF8_locale \<and> os_getcwd (env t) (trace t) = Inr enc
             \<and> (length [0x64, 0xE9 :: wchar_t] + 1) * 4 \<le> PTRDIFF_MAX
             \<and> os_malloc (env t) (trace t @ [Getcwd]) ((length [0x64, 0xE9 :: wchar_t] + 1) * 4) \<Longrightarrow>
           (\<exists>b t'. wgetcwd_compat None 0 t = Some (Some b, t')
                  \<and> map_of (mem t') b = Some (Wides ([0x64, 0xE9] @ [0])))"
    and p3: "\<And>t d old (dstlen :: 32 word) cp flags.
           lc_ctype (lazy_setlocale t) = UTF8_locale \<and> length enc < 2 ^ 31 - 1
             \<and> os_malloc (env t) (trace (lazy_setlocale t)) (length enc + 1)
             \<and> map_of (mem t) d = Some (Wides old) \<and> nat (sint dstlen) \<le> length old
             \<and> length [0x64, 0xE9 :: wchar_t] < nat (sint dstlen) \<Longrightarrow>
           (\<exists>t'. MultiByteToWideChar_compat cp flags (Some enc) (- 1) (Some d) dstlen t
                   = Some (int (length [0x64, 0xE9 :: wchar_t]), t')
                \<and> map_of (mem t') d
                    = Some (Wides ([0x64, 0xE9] @ 0 # drop (length [0x64, 0xE9 :: wchar_t] + 1) old)))"
    by blast
  have enc: "enc = [0x64, 0xC3, 0xA9]" using e enc_de by simp
  have a1: "lc_ctype w0 = UTF8_locale \<and> length enc + 1 \<le> PTRDIFF_MAX
             \<and> os_malloc (env w0) (trace w0) (length enc + 1)"
    by (simp add: enc w0_def os_ok_def PTRDIFF_MAX_def)
  have a2: "lc_ctype w_de = UTF8_locale \<and> os_getcwd (env w_de) (trace w_de) = Inr enc
             \<and> (length [0x64, 0xE9 :: wchar_t] + 1) * 4 \<le> PTRDIFF_MAX
             \<and> os_malloc (env w_de) (trace w_de @ [Getcwd]) ((length [0x64, 0xE9 :: wchar_t] + 1) * 4)"
    by (simp add: enc w_de_def w0_def os_ok_def PTRDIFF_MAX_def)
  have a3: "lc_ctype (lazy_setlocale w0) = UTF8_locale \<and> length enc < 2 ^ 31 - 1
             \<and> os_malloc (env w0) (trace (lazy_setlocale w0)) (length enc + 1)
             \<and> map_of (mem w0) 1 = Some (Wides [7, 7, 7, 7])
             \<and> nat (sint (4 :: 32 word)) \<le> length [7, 7, 7, 7 :: wchar_t]
             \<and> length [0x64, 0xE9 :: wchar_t] < nat (sint (4 :: 32 word))"
    by (simp add: enc lc_lazy_w0) (simp add: w0_def os_ok_def)
  from p1 [OF a1] p2 [OF a2] p3 [OF a3, of 65001 0]
  show ?thesis by (simp add: enc)
qed

text \<open>
  C7. Every intermediate multibyte buffer that an operation allocates is freed before the
  operation returns, on every exit path. \<^verbatim>\<open>wchdir_compat\<close>, \<^verbatim>\<open>_wremove\<close>, \<^verbatim>\<open>_wrename\<close> and
  \<^verbatim>\<open>_wfopen\<close> always return and leave the memory exactly as it was. \<^verbatim>\<open>wfullpath_compat\<close>
  and \<^verbatim>\<open>MultiByteToWideChar_compat\<close> write into the buffer of the caller and leave the
  set of allocated objects as it was. \<^verbatim>\<open>wgetcwd_compat\<close> does the same, or, asked to
  allocate, adds exactly one object, the one it returns. When \<^verbatim>\<open>_wrename\<close> has a buffer
  for the old name and the new name cannot be converted or its buffer cannot be
  allocated, it returns \<open>-1\<close> and the last thing it does is free the buffer of the old
  name.
\<close>

theorem intermediate_buffers_freed:
  "(\<exists>r s'. wchdir_compat path s = Some (r, s') \<and> mem s' = mem s)
   \<and> (\<exists>r s'. wremove filename s = Some (r, s') \<and> mem s' = mem s)
   \<and> (\<exists>r s'. wrename oldname newname s = Some (r, s') \<and> mem s' = mem s)
   \<and> (\<exists>r s'. wfopen filename mode s = Some (r, s') \<and> mem s' = mem s)
   \<and> (wfullpath_compat dst src sz s = Some (r5, s5) \<longrightarrow> keys s5 = keys s)
   \<and> (MultiByteToWideChar_compat cp flags msrc srclen mdst dstlen s = Some (r6, s6) \<longrightarrow>
        keys s6 = keys s)
   \<and> (wgetcwd_compat buffer sz' s = Some (r7, s7) \<longrightarrow>
        keys s7 = keys s
        \<or> (\<exists>b. r7 = Some b \<and> (buffer = None \<or> sz' = 0) \<and> b \<notin> set (keys s)
               \<and> keys s7 = b # keys s))
   \<and> (mbs_of_wcs (lc_ctype s) old = Some eo
        \<and> length eo + 1 \<le> PTRDIFF_MAX \<and> os_malloc (env s) (trace s) (length eo + 1)
        \<and> (mbs_of_wcs (lc_ctype s) new = None
           \<or> (\<exists>en. mbs_of_wcs (lc_ctype s) new = Some en
                  \<and> \<not> (length en + 1 \<le> PTRDIFF_MAX
                       \<and> os_malloc (env s)
                            (trace s @ [Malloc (length eo + 1) (Some (fresh (mem s)))])
                            (length en + 1)))) \<longrightarrow>
        (\<exists>s' h. wrename (Some old) (Some new) s = Some (- 1, s') \<and> mem s' = mem s
              \<and> trace s' = trace s @ Malloc (length eo + 1) (Some (fresh (mem s))) # h
                            @ [Free (fresh (mem s))]))"
proof -
  have 1: "\<exists>r s'. wchdir_compat path s = Some (r, s') \<and> mem s' = mem s"
    using wchdir_compat_frame [of path s] by blast
  have 2: "\<exists>r s'. wremove filename s = Some (r, s') \<and> mem s' = mem s"
    using wremove_frame [of filename s] by blast
  have 3: "\<exists>r s'. wrename oldname newname s = Some (r, s') \<and> mem s' = mem s"
    using wrename_frame [of oldname newname s] by blast
  have 4: "\<exists>r s'. wfopen filename mode s = Some (r, s') \<and> mem s' = mem s"
    using wfopen_frame [of filename mode s] by blast
  have 5: "keys s5 = keys s" if "wfullpath_compat dst src sz s = Some (r5, s5)"
    using wfullpath_compat_frame [OF that] by simp
  have 6: "keys s6 = keys s"
    if "MultiByteToWideChar_compat cp flags msrc srclen mdst dstlen s = Some (r6, s6)"
    using MultiByteToWideChar_frame [OF that] by simp
  have 7: "keys s7 = keys s
        \<or> (\<exists>b. r7 = Some b \<and> (buffer = None \<or> sz' = 0) \<and> b \<notin> set (keys s)
               \<and> keys s7 = b # keys s)"
    if "wgetcwd_compat buffer sz' s = Some (r7, s7)"
    using wgetcwd_compat_frame [OF that] by simp
  have 8: "\<exists>s' h. wrename (Some old) (Some new) s = Some (- 1, s') \<and> mem s' = mem s
              \<and> trace s' = trace s @ Malloc (length eo + 1) (Some (fresh (mem s))) # h
                            @ [Free (fresh (mem s))]"
    if h: "mbs_of_wcs (lc_ctype s) old = Some eo
        \<and> length eo + 1 \<le> PTRDIFF_MAX \<and> os_malloc (env s) (trace s) (length eo + 1)
        \<and> (mbs_of_wcs (lc_ctype s) new = None
           \<or> (\<exists>en. mbs_of_wcs (lc_ctype s) new = Some en
                  \<and> \<not> (length en + 1 \<le> PTRDIFF_MAX
                       \<and> os_malloc (env s)
                            (trace s @ [Malloc (length eo + 1) (Some (fresh (mem s)))])
                            (length en + 1))))"
  proof -
    from h have eo: "mbs_of_wcs (lc_ctype s) old = Some eo"
      and ok: "length eo + 1 \<le> PTRDIFF_MAX \<and> os_malloc (env s) (trace s) (length eo + 1)"
      and alt: "mbs_of_wcs (lc_ctype s) new = None
           \<or> (\<exists>en. mbs_of_wcs (lc_ctype s) new = Some en
                  \<and> \<not> (length en + 1 \<le> PTRDIFF_MAX
                       \<and> os_malloc (env s)
                            (trace s @ [Malloc (length eo + 1) (Some (fresh (mem s)))])
                            (length en + 1)))"
      by simp_all
    from alt show ?thesis
    proof (elim disjE exE conjE)
      assume "mbs_of_wcs (lc_ctype s) new = None"
      with eo ok have "wrename (Some old) (Some new) s
          = Some (- 1, s\<lparr>errno := EILSEQ,
                          trace := trace s @ Malloc (length eo + 1) (Some (fresh (mem s))) # []
                                   @ [Free (fresh (mem s))]\<rparr>)"
        by (simp add: wrename_closed Let_def)
      then show ?thesis by (intro exI [of _ "[]"] exI) auto
    next
      fix en
      assume "mbs_of_wcs (lc_ctype s) new = Some en"
        and "\<not> (length en + 1 \<le> PTRDIFF_MAX
               \<and> os_malloc (env s) (trace s @ [Malloc (length eo + 1) (Some (fresh (mem s)))])
                    (length en + 1))"
      with eo ok have "wrename (Some old) (Some new) s
          = Some (- 1, s\<lparr>errno := ENOMEM,
                          trace := trace s @ Malloc (length eo + 1) (Some (fresh (mem s)))
                                   # [Malloc (length en + 1) None] @ [Free (fresh (mem s))]\<rparr>)"
        by (auto simp: wrename_closed Let_def)
      then show ?thesis by (intro exI [of _ "[Malloc (length en + 1) None]"] exI) auto
    qed
  qed
  from 1 2 3 4 5 6 7 8 show ?thesis by blast
qed

theorem intermediate_buffers_freed_witness:
  "keys (w0\<lparr>mem := [(1, Wides [0x2F, 0x64, 0xE9, 0]), (2, Cell Null)],
             trace := [Malloc 4 (Some 3), Realpath [0x64, 0xC3, 0xA9], Free 3]\<rparr>) = keys w0
   \<and> keys (w0\<lparr>locale_set := True,
               mem := [(1, Wides [0x61, 0, 7, 7]), (2, Cell Null)],
               trace := [Setlocale, Malloc 4 (Some 3), Free 3]\<rparr>) = keys w0
   \<and> (\<exists>b. b \<notin> set (keys w0)
          \<and> keys (w0\<lparr>mem := (4, Wides [0x2F, 0x61, 0]) # mem w0,
                      trace := [Getcwd, Malloc 12 (Some 4), Free 3]\<rparr>) = b # keys w0)
   \<and> (\<exists>s' h. wrename (Some [0x61]) (Some [0xD800]) w0 = Some (- 1, s') \<and> mem s' = mem w0
          \<and> trace s' = trace w0 @ Malloc (length [0x61 :: char_t] + 1) (Some (fresh (mem w0))) # h
                        @ [Free (fresh (mem w0))])"
proof -
  have 5: "keys (w0\<lparr>mem := [(1, Wides [0x2F, 0x64, 0xE9, 0]), (2, Cell Null)],
             trace := [Malloc 4 (Some 3), Realpath [0x64, 0xC3, 0xA9], Free 3]\<rparr>) = keys w0"
    using intermediate_buffers_freed [where s = w0, THEN conjunct2, THEN conjunct2,
            THEN conjunct2, THEN conjunct2, THEN conjunct1, rule_format, OF wfullpath_w0] .
  have 6: "keys (w0\<lparr>locale_set := True,
               mem := [(1, Wides [0x61, 0, 7, 7]), (2, Cell Null)],
               trace := [Setlocale, Malloc 4 (Some 3), Free 3]\<rparr>) = keys w0"
    using intermediate_buffers_freed [where s = w0, THEN conjunct2, THEN conjunct2,
            THEN conjunct2, THEN conjunct2, THEN conjunct2, THEN conjunct1, rule_format,
            OF mbtwc_abc_w0] .
  have ne: "keys (w0\<lparr>mem := (4, Wides [0x2F, 0x61, 0]) # mem w0,
                      trace := [Getcwd, Malloc 12 (Some 4), Free 3]\<rparr>) \<noteq> keys w0"
    by (simp add: keys_def)
  have 7: "\<exists>b. b \<notin> set (keys w0)
          \<and> keys (w0\<lparr>mem := (4, Wides [0x2F, 0x61, 0]) # mem w0,
                      trace := [Getcwd, Malloc 12 (Some 4), Free 3]\<rparr>) = b # keys w0"
    using intermediate_buffers_freed [where s = w0, THEN conjunct2, THEN conjunct2,
            THEN conjunct2, THEN conjunct2, THEN conjunct2, THEN conjunct2, THEN conjunct1,
            rule_format, OF wgetcwd_w0] ne
    by blast
  have h: "mbs_of_wcs (lc_ctype w0) [0x61] = Some [0x61]
        \<and> length [0x61 :: char_t] + 1 \<le> PTRDIFF_MAX
        \<and> os_malloc (env w0) (trace w0) (length [0x61 :: char_t] + 1)
        \<and> (mbs_of_wcs (lc_ctype w0) [0xD800] = None
           \<or> (\<exists>en. mbs_of_wcs (lc_ctype w0) [0xD800] = Some en
                  \<and> \<not> (length en + 1 \<le> PTRDIFF_MAX
                       \<and> os_malloc (env w0)
                            (trace w0 @ [Malloc (length [0x61 :: char_t] + 1) (Some (fresh (mem w0)))])
                            (length en + 1))))"
    using mbs_a_w0 mbs_surrogate_w0 by (simp add: PTRDIFF_MAX_def) (simp add: w0_def os_ok_def)
  have 8: "\<exists>s' h. wrename (Some [0x61]) (Some [0xD800]) w0 = Some (- 1, s') \<and> mem s' = mem w0
          \<and> trace s' = trace w0 @ Malloc (length [0x61 :: char_t] + 1) (Some (fresh (mem w0))) # h
                        @ [Free (fresh (mem w0))]"
    using intermediate_buffers_freed [where s = w0, THEN conjunct2, THEN conjunct2,
            THEN conjunct2, THEN conjunct2, THEN conjunct2, THEN conjunct2, THEN conjunct2,
            rule_format, OF h] .
  from 5 6 7 8 show ?thesis by blast
qed

text \<open>
  C8, as the code has it. The locale is set up by \<^verbatim>\<open>MultiByteToWideChar_compat\<close> alone, at
  its first call that passes the check of the arguments. Over any sequence of calls of
  the layer \<^verbatim>\<open>setlocale\<close> is called at most once, exactly when the flag \<open>locale_set\<close>
  goes up, and once the flag is up the locale does not change. Every other function
  leaves the locale, the flag and the number of calls of \<^verbatim>\<open>setlocale\<close> as they are. A call
  of \<^verbatim>\<open>MultiByteToWideChar_compat\<close> with valid arguments leaves the flag up and has called
  \<^verbatim>\<open>setlocale\<close> once if the flag was down and not at all if it was up.
\<close>

theorem locale_setup_at_most_once:
  "(run cs s = Some s' \<longrightarrow>
      setlocale_calls s' = setlocale_calls s + (if locale_set s' \<and> \<not> locale_set s then 1 else 0)
      \<and> (locale_set s \<longrightarrow> locale_set s' \<and> lc_ctype s' = lc_ctype s))
   \<and> (perform c s = Some t
      \<and> (\<forall>cp flags src srclen dst dstlen.
            c \<noteq> MultiByteToWideChar cp flags src srclen dst dstlen) \<longrightarrow>
      locale_state t = locale_state s)
   \<and> (MultiByteToWideChar_compat cp flags src srclen dst dstlen s = Some (r, u)
      \<and> src \<noteq> None \<and> dst \<noteq> None \<and> 0 < sint dstlen \<longrightarrow>
      locale_set u \<and> setlocale_calls u = setlocale_calls s + (if locale_set s then 0 else 1))"
proof -
  have 1: "setlocale_calls s' = setlocale_calls s + (if locale_set s' \<and> \<not> locale_set s then 1 else 0)
      \<and> (locale_set s \<longrightarrow> locale_set s' \<and> lc_ctype s' = lc_ctype s)"
    if "run cs s = Some s'"
    using run_once [OF that] by (simp add: once_def)
  have 2: "locale_state t = locale_state s"
    if "perform c s = Some t
      \<and> (\<forall>cp flags src srclen dst dstlen.
            c \<noteq> MultiByteToWideChar cp flags src srclen dst dstlen)"
    using that perform_other by blast
  have 3: "locale_set u \<and> setlocale_calls u = setlocale_calls s + (if locale_set s then 0 else 1)"
    if a: "MultiByteToWideChar_compat cp flags src srclen dst dstlen s = Some (r, u)
      \<and> src \<noteq> None \<and> dst \<noteq> None \<and> 0 < sint dstlen"
  proof -
    from a have "locale_state u = locale_state (lazy_setlocale s)"
      using MultiByteToWideChar_frame [of cp flags src srclen dst dstlen s r u] by auto
    then show ?thesis
      using lazy_setlocale_sets [of s] lazy_setlocale_calls [of s]
      by (simp add: locale_state_def)
  qed
  from 1 2 3 show ?thesis by blast
qed

theorem locale_setup_at_most_once_witness:
  "setlocale_calls (w0\<lparr>errno := EINVAL, locale_set := True,
                        mem := [(1, Wides [0x61, 0, 7, 7]), (2, Cell Null)],
                        trace := [Setlocale, Malloc 4 (Some 3), Free 3]\<rparr>) = 1
   \<and> locale_state (w0\<lparr>errno := EINVAL\<rparr>) = locale_state w0
   \<and> locale_set (w0\<lparr>locale_set := True,
                    mem := [(1, Wides [0x61, 0, 7, 7]), (2, Cell Null)],
                    trace := [Setlocale, Malloc 4 (Some 3), Free 3]\<rparr>)"
proof -
  have l0: "\<not> locale_set w0" "setlocale_calls w0 = 0"
    by (simp_all add: w0_def setlocale_calls_def)
  have p: "perform (Wchdir None) w0 = Some (w0\<lparr>errno := EINVAL\<rparr>)
           \<and> (\<forall>cp flags src srclen dst dstlen.
                 Wchdir None \<noteq> MultiByteToWideChar cp flags src srclen dst dstlen)"
    by (simp add: wchdir_compat_def)
  have v: "MultiByteToWideChar_compat 65001 0 (Some [0x61, 0x62, 0x63]) (- 1) (Some 1) 2 w0
             = Some (1, w0\<lparr>locale_set := True,
                    mem := [(1, Wides [0x61, 0, 7, 7]), (2, Cell Null)],
                    trace := [Setlocale, Malloc 4 (Some 3), Free 3]\<rparr>)
           \<and> Some [0x61, 0x62, 0x63 :: char_t] \<noteq> None \<and> Some (1 :: nat) \<noteq> None
           \<and> 0 < sint (2 :: 32 word)"
    using mbtwc_abc_w0 by simp
  from locale_setup_at_most_once [where s = w0, THEN conjunct1, rule_format, OF run_example] l0
  have 1: "setlocale_calls (w0\<lparr>errno := EINVAL, locale_set := True,
                        mem := [(1, Wides [0x61, 0, 7, 7]), (2, Cell Null)],
                        trace := [Setlocale, Malloc 4 (Some 3), Free 3]\<rparr>) = 1"
    by simp
  from locale_setup_at_most_once [where s = w0, THEN conjunct2, THEN conjunct1, rule_format, OF p]
  have 2: "locale_state (w0\<lparr>errno := EINVAL\<rparr>) = locale_state w0" .
  from locale_setup_at_most_once [where s = w0, THEN conjunct2, THEN conjunct2, rule_format, OF v]
  have 3: "locale_set (w0\<lparr>locale_set := True,
                    mem := [(1, Wides [0x61, 0, 7, 7]), (2, Cell Null)],
                    trace := [Setlocale, Malloc 4 (Some 3), Free 3]\<rparr>)"
    by simp
  from 1 2 3 show ?thesis by blast
qed

text \<open>
  C8 as stated, that the first call that needs the locale sets it up, fails for the other
  functions. In a process in the \<^verbatim>\<open>C\<close> locale, \<^verbatim>\<open>wchdir_compat\<close> on the path \<^verbatim>\<open>d\<close>, e acute
  needs a UTF-8 locale to convert the path, does not set it up, and fails with
  \<^verbatim>\<open>EILSEQ\<close>; the flag is still down and the locale is still \<^verbatim>\<open>C\<close>.
\<close>

theorem locale_setup_counterexample:
  "wchdir_compat (Some [0x64, 0xE9]) w_C = Some (- 1, w_C\<lparr>errno := EILSEQ\<rparr>)
   \<and> \<not> locale_set w_C
   \<and> \<not> locale_set (w_C\<lparr>errno := EILSEQ\<rparr>)
   \<and> setlocale_calls (w_C\<lparr>errno := EILSEQ\<rparr>) = 0
   \<and> lc_ctype (w_C\<lparr>errno := EILSEQ\<rparr>) = C_locale"
proof -
  have "mbs_of_wcs (lc_ctype w_C) [0x64, 0xE9] = None"
    by (simp add: w_C_def)
  then have "wchdir_compat (Some [0x64, 0xE9]) w_C = Some (- 1, w_C\<lparr>errno := EILSEQ\<rparr>)"
    by (simp add: wchdir_compat_closed)
  then show ?thesis
    by (simp add: w_C_def w0_def setlocale_calls_def)
qed

end
